theory Spec2Isabelle
  imports Complex_Main "HOL-Library.Word" "HOL-Library.Sublist"
begin

section \<open>JavaScript strings\<close>

text \<open>
  A JavaScript string is a sequence of UTF-16 code units. ASCII literals of the source are
  written \<open>str ''...''\<close>; the Chinese literals of the source are given by their code units.
\<close>

type_synonym jsstring = "16 word list"

definition str :: "string \<Rightarrow> jsstring" where
  "str s = map (\<lambda>c. of_nat (of_char c :: nat)) s"

text \<open>
  \<open>String.prototype.trim\<close> strips WhiteSpace and LineTerminator code points from both
  ends (ECMA-262: TAB, VT, FF, SP, NBSP, ZWNBSP, the Zs category, LF, CR, LS, PS). All of
  them are single code units.
\<close>

definition isWhiteSpace :: "16 word \<Rightarrow> bool" where
  "isWhiteSpace c \<longleftrightarrow>
     c \<in> set [0x0009, 0x000A, 0x000B, 0x000C, 0x000D, 0x0020, 0x00A0, 0x1680,
              0x2000, 0x2001, 0x2002, 0x2003, 0x2004, 0x2005, 0x2006, 0x2007,
              0x2008, 0x2009, 0x200A, 0x2028, 0x2029, 0x202F, 0x205F, 0x3000, 0xFEFF]"

definition trim :: "jsstring \<Rightarrow> jsstring" where
  "trim s = rev (dropWhile isWhiteSpace (rev (dropWhile isWhiteSpace s)))"

section \<open>History filter (chat-service.ts, filterHistory)\<close>

datatype MessageRole = User | Assistant | System

record FileAttachment =
  filename :: jsstring
  mediaType :: jsstring
  localPath :: jsstring

record ChatMessage =
  id_msg :: jsstring
  role :: MessageRole
  content :: jsstring
  createdAt :: int
  attachments :: "FileAttachment list option"
  model :: "jsstring option"
  reasoning :: "jsstring option"
  stopped :: "bool option"

text \<open>
  The context-length policy: a number or the literal \<open>'infinite'\<close>; the parameter is
  optional. The number is taken as an integer: the filter compares it with 0 and with the
  count of rounds.
\<close>

datatype ContextLength = Number int | Infinite

text \<open>\<open>Array.prototype.findIndex\<close>: the first index whose element satisfies the predicate, or -1.\<close>

fun findIndex :: "('a \<Rightarrow> bool) \<Rightarrow> 'a list \<Rightarrow> int" where
  "findIndex P [] = -1"
| "findIndex P (x # xs) =
     (if P x then 0 else (let r = findIndex P xs in if r < 0 then -1 else r + 1))"

text \<open>Lines 192-194: drop assistant messages whose content trims to the empty string.\<close>

definition dropEmptyAssistant :: "ChatMessage list \<Rightarrow> ChatMessage list" where
  "dropEmptyAssistant messageHistory =
     filter (\<lambda>msg. \<not> (role msg = Assistant \<and> trim (content msg) = [])) messageHistory"

text \<open>Lines 197-203: keep what follows the message whose id is the last divider id.\<close>

definition applyDividers :: "ChatMessage list \<Rightarrow> jsstring list option \<Rightarrow> ChatMessage list" where
  "applyDividers filtered contextDividers =
     (case contextDividers of
        None \<Rightarrow> filtered
      | Some ds \<Rightarrow>
          if length ds > 0 then
            (let lastDividerId = last ds;
                 dividerIndex = findIndex (\<lambda>msg. id_msg msg = lastDividerId) filtered
             in if dividerIndex \<ge> 0 then drop (nat (dividerIndex + 1)) filtered else filtered)
          else filtered)"

text \<open>
  Lines 213-221, the backward loop \<open>for (i = length - 1; i >= 0; i--)\<close>. The third argument
  is \<open>i + 1\<close>, the number of positions not yet visited; \<open>unshift\<close> is \<open>#\<close>.
\<close>

fun collectRounds ::
  "ChatMessage list \<Rightarrow> int \<Rightarrow> nat \<Rightarrow> nat \<Rightarrow> ChatMessage list \<Rightarrow> ChatMessage list" where
  "collectRounds filtered contextLength 0 roundCount collected = collected"
| "collectRounds filtered contextLength (Suc i) roundCount collected =
     (let msg = filtered ! i;
          collected = msg # collected
      in if role msg = User then
           (let roundCount = roundCount + 1
            in if int roundCount \<ge> contextLength then collected
               else collectRounds filtered contextLength i roundCount collected)
         else collectRounds filtered contextLength i roundCount collected)"

definition filterHistory ::
  "ChatMessage list \<Rightarrow> jsstring list option \<Rightarrow> ContextLength option \<Rightarrow> ChatMessage list" where
  "filterHistory messageHistory contextDividers contextLength =
     (let filtered = dropEmptyAssistant messageHistory;
          filtered = applyDividers filtered contextDividers
      in case contextLength of
           Some (Number n) \<Rightarrow>
             if n \<ge> 0 then
               (if n = 0 then []
                else collectRounds filtered n (length filtered) 0 [])
             else filtered
         | _ \<Rightarrow> filtered)"

text \<open>The number of rounds in a message list: one per user-role message.\<close>

definition rounds :: "ChatMessage list \<Rightarrow> nat" where
  "rounds ms = length (filter (\<lambda>msg. role msg = User) ms)"

section \<open>JavaScript values\<close>

text \<open>
  The values that \<open>JSON.parse\<close> yields, and \<open>undefined\<close>. An object is given by its own
  properties; the first binding of a key counts. The number of a JSON value matters here
  only for its truthiness (zero is falsy).
\<close>

datatype jsval =
    Undefined
  | JNull
  | JBool bool
  | JNum rat
  | JStr jsstring
  | JArr "jsval list"
  | JObj "(jsstring \<times> jsval) list"

datatype jserror = SyntaxError | TypeError

definition thenE :: "jserror + 'a \<Rightarrow> ('a \<Rightarrow> jserror + 'b) \<Rightarrow> jserror + 'b" where
  "thenE r f = (case r of Inl e \<Rightarrow> Inl e | Inr v \<Rightarrow> f v)"

text \<open>\<open>try { body } catch { handler }\<close>.\<close>

definition tryCatch :: "jserror + 'a \<Rightarrow> (jserror \<Rightarrow> jserror + 'a) \<Rightarrow> jserror + 'a" where
  "tryCatch body handler = (case body of Inl e \<Rightarrow> handler e | Inr v \<Rightarrow> Inr v)"

definition truthy :: "jsval \<Rightarrow> bool" where
  "truthy v = (case v of
       Undefined \<Rightarrow> False
     | JNull \<Rightarrow> False
     | JBool b \<Rightarrow> b
     | JNum n \<Rightarrow> n \<noteq> 0
     | JStr s \<Rightarrow> s \<noteq> []
     | JArr _ \<Rightarrow> True
     | JObj _ \<Rightarrow> True)"

text \<open>\<open>a || b\<close>.\<close>

definition orElse :: "jsval \<Rightarrow> jsval \<Rightarrow> jsval" where
  "orElse a b = (if truthy a then a else b)"

text \<open>
  The property read \<open>v.k\<close>, for the keys the adapters read (\<open>type\<close>, \<open>delta\<close>, \<open>text\<close>,
  \<open>candidates\<close>, ...): none of them is a property of a string, number, boolean or array,
  so those receivers give \<open>undefined\<close>; reading a property of \<open>null\<close> or \<open>undefined\<close>
  throws a TypeError.
\<close>

definition getProp :: "jsval \<Rightarrow> jsstring \<Rightarrow> jserror + jsval" where
  "getProp v k = (case v of
       Undefined \<Rightarrow> Inl TypeError
     | JNull \<Rightarrow> Inl TypeError
     | JObj ps \<Rightarrow> Inr (case map_of ps k of None \<Rightarrow> Undefined | Some x \<Rightarrow> x)
     | _ \<Rightarrow> Inr Undefined)"

text \<open>The optional read \<open>v?.k\<close>.\<close>

definition optProp :: "jsval \<Rightarrow> jsstring \<Rightarrow> jserror + jsval" where
  "optProp v k = (if v = Undefined \<or> v = JNull then Inr Undefined else getProp v k)"

text \<open>The optional index read \<open>v?.[0]\<close>.\<close>

definition optIndex0 :: "jsval \<Rightarrow> jserror + jsval" where
  "optIndex0 v = (case v of
       Undefined \<Rightarrow> Inr Undefined
     | JNull \<Rightarrow> Inr Undefined
     | JArr xs \<Rightarrow> Inr (case xs of [] \<Rightarrow> Undefined | x # _ \<Rightarrow> x)
     | JStr s \<Rightarrow> Inr (case s of [] \<Rightarrow> Undefined | c # _ \<Rightarrow> JStr [c])
     | JObj ps \<Rightarrow> Inr (case map_of ps (str ''0'') of None \<Rightarrow> Undefined | Some x \<Rightarrow> x)
     | _ \<Rightarrow> Inr Undefined)"

text \<open>
  The values a \<open>for ... of\<close> loop visits: the elements of an array, the code points of a
  string (a surrogate pair is one step); any other value is not iterable.
\<close>

fun codePoints :: "jsstring \<Rightarrow> jsstring list" where
  "codePoints [] = []"
| "codePoints [c] = [[c]]"
| "codePoints (c # d # cs) =
     (if 0xD800 \<le> c \<and> c \<le> 0xDBFF \<and> 0xDC00 \<le> d \<and> d \<le> 0xDFFF
      then [c, d] # codePoints cs
      else [c] # codePoints (d # cs))"

definition iterate :: "jsval \<Rightarrow> jserror + jsval list" where
  "iterate v = (case v of
       JArr xs \<Rightarrow> Inr xs
     | JStr s \<Rightarrow> Inr (map JStr (codePoints s))
     | _ \<Rightarrow> Inl TypeError)"

section \<open>Stream events (providers/types.ts, StreamEvent)\<close>

text \<open>
  The payload type is \<open>jsstring\<close> where the TypeScript types hold (the orchestration), and
  \<open>jsval\<close> for what a frame parser really puts there when a frame has an unexpected shape.
  The constructors carry: chunk (delta); reasoning (delta); tool_call_start (toolCallId,
  toolName, metadata); tool_call_delta (toolCallId, argumentsDelta); done (stopReason).
\<close>

datatype 'v StreamEvent =
    Chunk 'v
  | ReasoningDelta 'v
  | ToolCallStart 'v 'v "'v option"
  | ToolCallDelta 'v 'v
  | Done 'v

section \<open>Anthropic adapter (anthropic-adapter.ts)\<close>

text \<open>\<open>event.delta?.k\<close>\<close>

definition deltaField :: "jsval \<Rightarrow> jsstring \<Rightarrow> jserror + jsval" where
  "deltaField event k = thenE (getProp event (str ''delta'')) (\<lambda>d. optProp d k)"

text \<open>Lines 258-264.\<close>

definition anthropicToolCallStart :: "jsval \<Rightarrow> jserror + jsval StreamEvent list" where
  "anthropicToolCallStart event =
     thenE (getProp event (str ''type'')) (\<lambda>ty.
       if ty = JStr (str ''content_block_start'') then
         thenE (getProp event (str ''content_block'')) (\<lambda>cb.
         thenE (optProp cb (str ''type'')) (\<lambda>cbty.
           if cbty = JStr (str ''tool_use'') then
             thenE (getProp cb (str ''id'')) (\<lambda>cbid.
             thenE (getProp cb (str ''name'')) (\<lambda>cbname.
               Inr [ToolCallStart (orElse cbid (JStr [])) (orElse cbname (JStr [])) None]))
           else Inr []))
       else Inr [])"

text \<open>Lines 266-281.\<close>

definition anthropicContentBlockDelta :: "jsval \<Rightarrow> jserror + jsval StreamEvent list" where
  "anthropicContentBlockDelta event =
     thenE (getProp event (str ''type'')) (\<lambda>ty.
       if ty = JStr (str ''content_block_delta'') then
         thenE (deltaField event (str ''type'')) (\<lambda>dty.
         thenE (if dty = JStr (str ''thinking_delta'')
                then deltaField event (str ''thinking'') else Inr (JBool False)) (\<lambda>isThinking.
           if truthy isThinking then
             thenE (getProp event (str ''delta'')) (\<lambda>d.
             thenE (getProp d (str ''thinking'')) (\<lambda>thinking.
               Inr [ReasoningDelta thinking]))
           else
             thenE (deltaField event (str ''type'')) (\<lambda>dty.
             thenE (if dty = JStr (str ''input_json_delta'')
                    then deltaField event (str ''partial_json'') else Inr (JBool False)) (\<lambda>isJson.
               if truthy isJson then
                 thenE (getProp event (str ''delta'')) (\<lambda>d.
                 thenE (getProp d (str ''partial_json'')) (\<lambda>partial_json.
                   Inr [ToolCallDelta (JStr []) partial_json]))
               else
                 thenE (deltaField event (str ''text'')) (\<lambda>txt.
                   if truthy txt then
                     thenE (getProp event (str ''delta'')) (\<lambda>d.
                     thenE (getProp d (str ''text'')) (\<lambda>txt. Inr [Chunk txt]))
                   else Inr [])))))
       else Inr [])"

text \<open>Lines 284-286.\<close>

definition anthropicMessageDelta :: "jsval \<Rightarrow> jserror + jsval StreamEvent list" where
  "anthropicMessageDelta event =
     thenE (getProp event (str ''type'')) (\<lambda>ty.
     thenE (if ty = JStr (str ''message_delta'')
            then deltaField event (str ''stop_reason'') else Inr (JBool False)) (\<lambda>hasStop.
       if truthy hasStop then
         thenE (getProp event (str ''delta'')) (\<lambda>d.
         thenE (getProp d (str ''stop_reason'')) (\<lambda>stop_reason. Inr [Done stop_reason]))
       else Inr []))"

text \<open>
  \<open>AnthropicAdapter.parseSSELine\<close>. \<open>JSON.parse\<close> is a parameter: it returns the parsed
  value or throws a SyntaxError. First the body of the \<open>try\<close> (lines 254-288), then the
  method.
\<close>

definition AnthropicAdapter_parseSSELine_try ::
  "(jsstring \<Rightarrow> jserror + jsval) \<Rightarrow> jsstring \<Rightarrow> jserror + jsval StreamEvent list" where
  "AnthropicAdapter_parseSSELine_try JSON_parse jsonLine =
     thenE (JSON_parse jsonLine) (\<lambda>event.
     thenE (anthropicToolCallStart event) (\<lambda>events1.
     thenE (anthropicContentBlockDelta event) (\<lambda>events2.
     thenE (anthropicMessageDelta event) (\<lambda>events3.
       Inr (events1 @ events2 @ events3)))))"

definition AnthropicAdapter_parseSSELine ::
  "(jsstring \<Rightarrow> jserror + jsval) \<Rightarrow> jsstring \<Rightarrow> jserror + jsval StreamEvent list" where
  "AnthropicAdapter_parseSSELine JSON_parse jsonLine =
     tryCatch (AnthropicAdapter_parseSSELine_try JSON_parse jsonLine) (\<lambda>_. Inr [])"

record TitleRequestInput =
  baseUrl_tr :: jsstring
  apiKey_tr :: jsstring
  modelId_tr :: jsstring
  prompt :: jsstring

record ProviderRequest =
  url :: jsstring
  headers :: "(jsstring \<times> jsstring) list"
  body :: jsstring

text \<open>Lines 305-311: the object that \<open>buildTitleRequest\<close> serialises as the body.\<close>

definition AnthropicAdapter_titleBody :: "TitleRequestInput \<Rightarrow> jsval" where
  "AnthropicAdapter_titleBody input =
     JObj [(str ''model'', JStr (modelId_tr input)),
           (str ''max_tokens'', JNum 50),
           (str ''messages'',
              JArr [JObj [(str ''role'', JStr (str ''user'')),
                          (str ''content'', JStr (prompt input))]]),
           (str ''thinking'', JObj [(str ''type'', JStr (str ''disabled''))])]"

text \<open>
  \<open>AnthropicAdapter.buildTitleRequest\<close>; \<open>normalizeAnthropicBaseUrl\<close> (url-utils.ts) and
  \<open>JSON.stringify\<close> are parameters.
\<close>

definition AnthropicAdapter_buildTitleRequest ::
  "(jsstring \<Rightarrow> jsstring) \<Rightarrow> (jsval \<Rightarrow> jsstring) \<Rightarrow> TitleRequestInput \<Rightarrow> ProviderRequest" where
  "AnthropicAdapter_buildTitleRequest normalizeAnthropicBaseUrl JSON_stringify input =
     (let url0 = normalizeAnthropicBaseUrl (baseUrl_tr input)
      in \<lparr> url = url0 @ str ''/messages'',
           headers = [(str ''x-api-key'', apiKey_tr input),
                      (str ''Authorization'', str ''Bearer '' @ apiKey_tr input),
                      (str ''anthropic-version'', str ''2023-06-01''),
                      (str ''content-type'', str ''application/json'')],
           body = JSON_stringify (AnthropicAdapter_titleBody input) \<rparr>)"

section \<open>Google adapter (google-adapter.ts)\<close>

text \<open>Lines 249-276: the events of one part; \<open>continue\<close> is the early result.\<close>

definition googlePartEvents ::
  "(jsval \<Rightarrow> jsstring) \<Rightarrow> jsval \<Rightarrow> jserror + jsval StreamEvent list" where
  "googlePartEvents JSON_stringify part =
     thenE (getProp part (str ''functionCall'')) (\<lambda>fc.
       if truthy fc then
         thenE (getProp fc (str ''name'')) (\<lambda>fcname.
         thenE (getProp part (str ''thoughtSignature'')) (\<lambda>sig.
         thenE (getProp fc (str ''args'')) (\<lambda>args.
           Inr [ToolCallStart fcname fcname
                  (if truthy sig then Some (JObj [(str ''thoughtSignature'', sig)]) else None),
                ToolCallDelta fcname (JStr (JSON_stringify (orElse args (JObj []))))])))
       else
         thenE (getProp part (str ''text'')) (\<lambda>txt.
           if \<not> truthy txt then Inr []
           else
             thenE (getProp part (str ''thought'')) (\<lambda>thought.
               if truthy thought then Inr [ReasoningDelta txt] else Inr [Chunk txt])))"

text \<open>Lines 247-277: the loop over the parts, pushing onto \<open>events\<close>.\<close>

fun googlePartsLoop ::
  "(jsval \<Rightarrow> jsstring) \<Rightarrow> jsval list \<Rightarrow> jsval StreamEvent list \<Rightarrow> jserror + jsval StreamEvent list"
  where
  "googlePartsLoop JSON_stringify [] events = Inr events"
| "googlePartsLoop JSON_stringify (part # rest) events =
     (case googlePartEvents JSON_stringify part of
        Inl e \<Rightarrow> Inl e
      | Inr pushed \<Rightarrow> googlePartsLoop JSON_stringify rest (events @ pushed))"

text \<open>
  \<open>GoogleAdapter.parseSSELine\<close>; \<open>JSON.parse\<close> and \<open>JSON.stringify\<close> are parameters.
  First the body of the \<open>try\<close> (lines 240-279), then the method.
\<close>

definition GoogleAdapter_parseSSELine_try ::
  "(jsstring \<Rightarrow> jserror + jsval) \<Rightarrow> (jsval \<Rightarrow> jsstring) \<Rightarrow> jsstring
     \<Rightarrow> jserror + jsval StreamEvent list" where
  "GoogleAdapter_parseSSELine_try JSON_parse JSON_stringify jsonLine =
     thenE (JSON_parse jsonLine) (\<lambda>parsed.
     thenE (getProp parsed (str ''candidates'')) (\<lambda>candidates.
     thenE (optIndex0 candidates) (\<lambda>candidate.
     thenE (optProp candidate (str ''content'')) (\<lambda>content0.
     thenE (optProp content0 (str ''parts'')) (\<lambda>parts.
       if \<not> truthy parts then Inr []
       else thenE (iterate parts) (\<lambda>ps. googlePartsLoop JSON_stringify ps []))))))"

definition GoogleAdapter_parseSSELine ::
  "(jsstring \<Rightarrow> jserror + jsval) \<Rightarrow> (jsval \<Rightarrow> jsstring) \<Rightarrow> jsstring
     \<Rightarrow> jserror + jsval StreamEvent list" where
  "GoogleAdapter_parseSSELine JSON_parse JSON_stringify jsonLine =
     tryCatch (GoogleAdapter_parseSSELine_try JSON_parse JSON_stringify jsonLine) (\<lambda>_. Inr [])"

text \<open>Lines 293-296: the object that \<open>buildTitleRequest\<close> serialises as the body.\<close>

definition GoogleAdapter_titleBody :: "TitleRequestInput \<Rightarrow> jsval" where
  "GoogleAdapter_titleBody input =
     JObj [(str ''contents'',
              JArr [JObj [(str ''role'', JStr (str ''user'')),
                          (str ''parts'', JArr [JObj [(str ''text'', JStr (prompt input))]])]]),
           (str ''generationConfig'', JObj [(str ''maxOutputTokens'', JNum 50)])]"

text \<open>
  \<open>GoogleAdapter.buildTitleRequest\<close>; \<open>normalizeBaseUrl\<close> (url-utils.ts) and
  \<open>JSON.stringify\<close> are parameters.
\<close>

definition GoogleAdapter_buildTitleRequest ::
  "(jsstring \<Rightarrow> jsstring) \<Rightarrow> (jsval \<Rightarrow> jsstring) \<Rightarrow> TitleRequestInput \<Rightarrow> ProviderRequest" where
  "GoogleAdapter_buildTitleRequest normalizeBaseUrl JSON_stringify input =
     (let url0 = normalizeBaseUrl (baseUrl_tr input)
      in \<lparr> url = url0 @ str ''/v1beta/models/'' @ modelId_tr input
                   @ str '':generateContent?key='' @ apiKey_tr input,
           headers = [(str ''content-type'', str ''application/json'')],
           body = JSON_stringify (GoogleAdapter_titleBody input) \<rparr>)"

text \<open>
  Reading a wire body: \<open>field v k\<close> is the own property \<open>k\<close> of an object (\<open>undefined\<close>
  when absent or when \<open>v\<close> is no object). The Anthropic wire format has its thinking
  setting in the field \<open>thinking\<close> (lines 220 and 310 of anthropic-adapter.ts), the Google
  wire format in \<open>generationConfig.thinkingConfig\<close> (line 198 of google-adapter.ts).
\<close>

definition field :: "jsval \<Rightarrow> jsstring \<Rightarrow> jsval" where
  "field v k = (case v of
       JObj ps \<Rightarrow> (case map_of ps k of None \<Rightarrow> Undefined | Some x \<Rightarrow> x)
     | _ \<Rightarrow> Undefined)"

text \<open>
  A body explicitly disables thinking when such a setting is there and switches thinking
  off: \<open>thinking: { type: 'disabled' }\<close> in the Anthropic format, a thinking budget of
  zero in the \<open>thinkingConfig\<close> of the Google format.
\<close>

definition explicitlyDisablesThinking :: "jsval \<Rightarrow> bool" where
  "explicitlyDisablesThinking b \<longleftrightarrow>
     field (field b (str ''thinking'')) (str ''type'') = JStr (str ''disabled'')
     \<or> field (field (field b (str ''generationConfig'')) (str ''thinkingConfig''))
          (str ''thinkingBudget'') = JNum 0"

section \<open>Chat orchestration (chat-service.ts)\<close>

subsection \<open>Data\<close>

record ToolDefinition =
  name_td :: jsstring
  description_td :: jsstring
  parameters_td :: jsval

record ToolCall =
  id_tc :: jsstring
  name_tc :: jsstring
  arguments_tc :: "(jsstring \<times> jsval) list"
  metadata_tc :: "(jsstring \<times> jsval) list option"

record ToolResult =
  toolCallId :: jsstring
  content_tr :: jsstring
  isError :: "bool option"

datatype ContinuationMessage =
    AssistantTurn jsstring "ToolCall list"
  | ToolTurn "ToolResult list"

record StreamResult =
  content_sr :: jsstring
  reasoning_sr :: jsstring
  toolCalls_sr :: "ToolCall list option"
  stopReason_sr :: "jsstring option"

text \<open>
  A thrown value: an \<open>Error\<close> object with its message, or any other value with its
  \<open>String(...)\<close> rendering.
\<close>

datatype thrown = ErrorObject jsstring | OtherValue jsstring

text \<open>
  One call of \<open>streamSSE\<close> (packages/core, not part of this model): the events it hands to
  \<open>onEvent\<close>, in order, and then either the aggregate it resolves with or the value it
  rejects with, together with \<open>controller.signal.aborted\<close> as the catch block reads it.
\<close>

datatype StreamOutcome = Resolved StreamResult | Rejected thrown bool

record StreamRun =
  events :: "jsstring StreamEvent list"
  outcome :: StreamOutcome

record MemoryConfig =
  enabled :: bool
  apiKey_mc :: jsstring
  userId_mc :: "jsstring option"
  baseUrl_mc :: "jsstring option"

record MemosCredentials =
  apiKey_cr :: jsstring
  userId_cr :: jsstring
  baseUrl_cr :: "jsstring option"

record MemoryFact =
  id_fact :: jsstring
  text_fact :: jsstring
  createTime :: "jsstring option"
  confidence :: "rat option"

record MemoryPreference =
  id_pref :: jsstring
  text_pref :: jsstring
  type_pref :: "jsstring option"

record MemorySearchResult =
  facts :: "MemoryFact list"
  preferences :: "MemoryPreference list"

record Channel =
  id_ch :: jsstring
  provider :: jsstring
  baseUrl_ch :: jsstring

record ChatSendInput =
  conversationId :: jsstring
  userMessage :: jsstring
  channelId :: jsstring
  modelId :: jsstring
  systemMessage :: "jsstring option"
  contextLength :: "ContextLength option"
  contextDividers :: "jsstring list option"
  attachments_in :: "FileAttachment list option"
  thinkingEnabled :: "bool option"

text \<open>
  The argument of \<open>adapter.buildStreamRequest\<close> (lines 372-384), without the
  \<open>readImageAttachments\<close> callback.
\<close>

record StreamRequestInput =
  baseUrl_rq :: jsstring
  apiKey_rq :: jsstring
  modelId_rq :: jsstring
  history_rq :: "ChatMessage list"
  userMessage_rq :: jsstring
  systemMessage_rq :: "jsstring option"
  attachments_rq :: "FileAttachment list option"
  thinkingEnabled_rq :: "bool option"
  tools_rq :: "ToolDefinition list option"
  continuationMessages_rq :: "ContinuationMessage list option"

text \<open>What \<open>webContents.send\<close> delivers: the channel and its payload.\<close>

datatype ToolActivity =
    ActivityStart jsstring jsstring
  | ActivityResult jsstring jsstring jsstring "bool option"

datatype IpcEvent =
    STREAM_ERROR jsstring jsstring
  | STREAM_CHUNK jsstring jsstring
  | STREAM_REASONING jsstring jsstring
  | STREAM_TOOL_ACTIVITY jsstring ToolActivity
  | STREAM_COMPLETE jsstring jsstring "jsstring option"

text \<open>The three calls of \<open>appendMessage\<close> in \<open>sendMessage\<close>: lines 331, 465 and 499.\<close>

datatype AppendSite = AppendUser | AppendAssistant | AppendPartial

text \<open>
  The collaborators of one run of \<open>sendMessage\<close>. \<open>randomUUID\<close> and \<open>dateNow\<close> give the
  result of the n-th call that \<open>sendMessage\<close> itself makes in the run. \<open>streamSSE\<close> stands
  for building the wire request with the adapter of the given provider and streaming it;
  its first argument is the number of requests made before. \<open>setupThrows\<close> is the
  exception, if any, that steps 7-8 (\<open>getAdapter\<close>, \<open>getMemoryConfig\<close>,
  \<open>getEffectiveProxyUrl\<close>, \<open>getFetchFn\<close>) raise, with the abort flag.

  Every collaborator may throw, whether the source guards the call or not: \<open>listChannels\<close>
  gives the channels or throws; \<open>getConversationMessagesThrows\<close> is the exception, if any,
  of reading the history of a conversation; \<open>appendMessageThrows\<close> is the exception, if
  any, of the append at a site (a failed append stores nothing); \<open>isDocumentAttachment\<close>
  gives the answer or throws. \<open>abortedAfterLoop\<close> is \<open>controller.signal.aborted\<close> as the
  catch block reads it when step 10 throws. \<open>webContents.send\<close> is the sink itself: an
  event is emitted when it is called.
\<close>

record Env =
  listChannels :: "thrown + Channel list"
  decryptApiKey :: "jsstring \<Rightarrow> thrown + jsstring"
  getConversationMessagesThrows :: "jsstring \<Rightarrow> thrown option"
  appendMessageThrows :: "AppendSite \<Rightarrow> thrown option"
  abortedAfterLoop :: bool
  randomUUID :: "nat \<Rightarrow> jsstring"
  dateNow :: "nat \<Rightarrow> int"
  newController :: nat
  isDocumentAttachment :: "jsstring \<Rightarrow> thrown + bool"
  extractTextFromAttachment :: "jsstring \<Rightarrow> thrown + jsstring"
  setupThrows :: "(thrown \<times> bool) option"
  getMemoryConfig :: MemoryConfig
  streamSSE :: "nat \<Rightarrow> jsstring \<Rightarrow> StreamRequestInput \<Rightarrow> StreamRun"
  searchMemory :: "MemosCredentials \<Rightarrow> jsval \<Rightarrow> thrown + MemorySearchResult"
  formatSearchResult :: "MemorySearchResult \<Rightarrow> jsstring"
  addMemory :: "MemosCredentials \<Rightarrow> jsval \<Rightarrow> jsval \<Rightarrow> thrown + unit"
  updateConversationMeta :: "jsstring \<Rightarrow> thrown + unit"

text \<open>
  The state a run reads and writes: the registry \<open>activeControllers\<close>, the message store
  behind \<open>appendMessage\<close> / \<open>getConversationMessages\<close>, the events sent to the renderer
  (oldest first), the requests handed to \<open>streamSSE\<close> (oldest first), and the two
  accumulators that \<open>sendMessage\<close> declares outside its \<open>try\<close>.
\<close>

record State =
  activeControllers :: "jsstring \<rightharpoonup> nat"
  conversations :: "jsstring \<Rightarrow> ChatMessage list"
  sent :: "IpcEvent list"
  requests :: "StreamRequestInput list"
  accumulatedContent :: jsstring
  accumulatedReasoning :: jsstring

subsection \<open>Constants\<close>

definition MEMORY_TOOLS :: "ToolDefinition list" where
  "MEMORY_TOOLS =
     [\<lparr> name_td = str ''recall_memory'',
         description_td = str ''Search user memories (facts and preferences). Use this to recall relevant context about the user before responding.'',
         parameters_td =
           JObj [(str ''type'', JStr (str ''object'')),
                 (str ''properties'',
                    JObj [(str ''query'',
                      JObj [(str ''type'', JStr (str ''string'')),
                            (str ''description'', JStr (str ''Search query for memory retrieval''))])]),
                 (str ''required'', JArr [JStr (str ''query'')])] \<rparr>,
      \<lparr> name_td = str ''add_memory'',
         description_td = str ''Store a conversation message pair for long-term memory. Call this after meaningful exchanges worth remembering.'',
         parameters_td =
           JObj [(str ''type'', JStr (str ''object'')),
                 (str ''properties'',
                    JObj [(str ''userMessage'',
                      JObj [(str ''type'', JStr (str ''string'')),
                            (str ''description'', JStr (str ''The user message to store''))]),
                          (str ''assistantMessage'',
                      JObj [(str ''type'', JStr (str ''string'')),
                            (str ''description'', JStr (str ''The assistant response to store''))])]),
                 (str ''required'', JArr [JStr (str ''userMessage'')])] \<rparr>]"

text \<open>The template literal of lines 67-83, as UTF-16 code units.\<close>

definition MEMORY_SYSTEM_PROMPT :: jsstring where
  "MEMORY_SYSTEM_PROMPT =
     [0x000A, 0x003C, 0x006D, 0x0065, 0x006D, 0x006F, 0x0072, 0x0079, 0x005F, 0x0069, 0x006E, 0x0073,
      0x0074, 0x0072, 0x0075, 0x0063, 0x0074, 0x0069, 0x006F, 0x006E, 0x0073, 0x003E, 0x000A, 0x4F60,
      0x62E5, 0x6709, 0x8DE8, 0x4F1A, 0x8BDD, 0x7684, 0x8BB0, 0x5FC6, 0x80FD, 0x529B, 0x3002, 0x000A,
      0x000A, 0x002A, 0x002A, 0x0072, 0x0065, 0x0063, 0x0061, 0x006C, 0x006C, 0x005F, 0x006D, 0x0065,
      0x006D, 0x006F, 0x0072, 0x0079, 0x0020, 0x2014, 0x0020, 0x56DE, 0x5FC6, 0xFF1A, 0x002A, 0x002A,
      0x000A, 0x5728, 0x4F60, 0x89C9, 0x5F97, 0x8FC7, 0x53BB, 0x7684, 0x7ECF, 0x5386, 0x53EF, 0x80FD,
      0x5BF9, 0x5F53, 0x524D, 0x6709, 0x5E2E, 0x52A9, 0x65F6, 0x4E3B, 0x52A8, 0x8C03, 0x7528, 0xFF1A,
      0x000A, 0x002D, 0x0020, 0x7528, 0x6237, 0x63D0, 0x5230, 0x0022, 0x4E4B, 0x524D, 0x0022, 0x3001,
      0x0022, 0x4E0A, 0x6B21, 0x0022, 0x7B49, 0x56DE, 0x6EAF, 0x6027, 0x8868, 0x8FF0, 0x000A, 0x002D,
      0x0020, 0x5F53, 0x524D, 0x4EFB, 0x52A1, 0x53EF, 0x80FD, 0x548C, 0x8FC7, 0x53BB, 0x505A, 0x8FC7,
      0x7684, 0x4E8B, 0x60C5, 0x6709, 0x5173, 0x000A, 0x000A, 0x002A, 0x002A, 0x0061, 0x0064, 0x0064,
      0x005F, 0x006D, 0x0065, 0x006D, 0x006F, 0x0072, 0x0079, 0x0020, 0x2014, 0x0020, 0x8BB0, 0x4F4F,
      0xFF1A, 0x002A, 0x002A, 0x000A, 0x5F53, 0x5BF9, 0x8BDD, 0x4E2D, 0x53D1, 0x751F, 0x503C, 0x5F97,
      0x8BB0, 0x4F4F, 0x7684, 0x4E8B, 0x65F6, 0x8C03, 0x7528, 0xFF1A, 0x000A, 0x002D, 0x0020, 0x7528,
      0x6237, 0x5206, 0x4EAB, 0x4E86, 0x5DE5, 0x4F5C, 0x65B9, 0x5F0F, 0x6216, 0x504F, 0x597D, 0x000A,
      0x002D, 0x0020, 0x4E00, 0x8D77, 0x505A, 0x4E86, 0x91CD, 0x8981, 0x51B3, 0x5B9A, 0x000A, 0x002D,
      0x0020, 0x89E3, 0x51B3, 0x4E86, 0x68D8, 0x624B, 0x95EE, 0x9898, 0x000A, 0x000A, 0x81EA, 0x7136,
      0x5730, 0x8FD0, 0x7528, 0x8BB0, 0x5FC6, 0xFF0C, 0x4E0D, 0x8981, 0x63D0, 0x53CA, 0x0022, 0x8BB0,
      0x5FC6, 0x7CFB, 0x7EDF, 0x0022, 0x7B49, 0x5185, 0x90E8, 0x6982, 0x5FF5, 0x3002, 0x000A, 0x003C,
      0x002F, 0x006D, 0x0065, 0x006D, 0x006F, 0x0072, 0x0079, 0x005F, 0x0069, 0x006E, 0x0073, 0x0074,
      0x0072, 0x0075, 0x0063, 0x0074, 0x0069, 0x006F, 0x006E, 0x0073, 0x003E]"

definition MAX_TOOL_ROUNDS :: nat where
  "MAX_TOOL_ROUNDS = 5"

text \<open>The error texts of lines 303, 315 and 521, and the placeholders of lines 137 and 142.\<close>

definition channelNotFoundText :: jsstring where
  "channelNotFoundText = [0x6E20, 0x9053, 0x4E0D, 0x5B58, 0x5728]"

definition decryptFailedText :: jsstring where
  "decryptFailedText =
     [0x89E3, 0x5BC6] @ str '' API Key '' @ [0x5931, 0x8D25]"

definition unknownErrorText :: jsstring where
  "unknownErrorText = [0x672A, 0x77E5, 0x9519, 0x8BEF]"

definition fileEmptyText :: jsstring where
  "fileEmptyText = [0x005B, 0x6587, 0x4EF6, 0x5185, 0x5BB9, 0x4E3A, 0x7A7A, 0x005D]"

definition fileFailedText :: jsstring where
  "fileFailedText =
     [0x005B, 0x6587, 0x4EF6, 0x5185, 0x5BB9, 0x63D0, 0x53D6, 0x5931, 0x8D25, 0x003A, 0x0020]"

subsection \<open>Document attachments (lines 119-174)\<close>

text \<open>The text pushed for one document attachment (lines 132-143).\<close>

definition documentPart :: "Env \<Rightarrow> FileAttachment \<Rightarrow> jsstring" where
  "documentPart env att =
     (let opening = [0x000A] @ str ''<file name='' @ [0x0022] @ filename att @ [0x0022]
                    @ str ''>'' @ [0x000A];
          closing = [0x000A] @ str ''</file>''
      in case extractTextFromAttachment env (localPath att) of
           Inr text0 \<Rightarrow>
             if trim text0 \<noteq> [] then opening @ text0 @ closing
             else opening @ fileEmptyText @ closing
         | Inl error \<Rightarrow>
             (let errorMsg = (case error of ErrorObject m \<Rightarrow> m | OtherValue _ \<Rightarrow> unknownErrorText)
              in opening @ fileFailedText @ errorMsg @ str '']'' @ closing))"

text \<open>
  \<open>Array.prototype.filter\<close> and \<open>Array.prototype.some\<close> with a callback that may throw:
  the elements are visited in order, \<open>some\<close> stops at the first hit, and the first
  exception ends the call.
\<close>

fun filterT :: "('a \<Rightarrow> thrown + bool) \<Rightarrow> 'a list \<Rightarrow> thrown + 'a list" where
  "filterT p [] = Inr []"
| "filterT p (x # xs) =
     (case p x of
        Inl t \<Rightarrow> Inl t
      | Inr b \<Rightarrow>
          (case filterT p xs of
             Inl t \<Rightarrow> Inl t
           | Inr ys \<Rightarrow> Inr (if b then x # ys else ys)))"

fun someT :: "('a \<Rightarrow> thrown + bool) \<Rightarrow> 'a list \<Rightarrow> thrown + bool" where
  "someT p [] = Inr False"
| "someT p (x # xs) =
     (case p x of
        Inl t \<Rightarrow> Inl t
      | Inr b \<Rightarrow> if b then Inr True else someT p xs)"

definition enrichMessageWithDocuments ::
  "Env \<Rightarrow> jsstring \<Rightarrow> FileAttachment list option \<Rightarrow> thrown + jsstring" where
  "enrichMessageWithDocuments env messageText atts =
     (case atts of
        None \<Rightarrow> Inr messageText
      | Some as \<Rightarrow>
          if length as = 0 then Inr messageText
          else
            (case filterT (\<lambda>att. isDocumentAttachment env (mediaType att)) as of
               Inl t \<Rightarrow> Inl t
             | Inr docAttachments \<Rightarrow>
                 if length docAttachments = 0 then Inr messageText
                 else Inr (concat (messageText # map (documentPart env) docAttachments))))"

text \<open>The loop of lines 160-171, pushing onto \<open>enriched\<close>.\<close>

fun enrichHistoryLoop :: "Env \<Rightarrow> ChatMessage list \<Rightarrow> ChatMessage list \<Rightarrow> thrown + ChatMessage list"
  where
  "enrichHistoryLoop env [] enriched = Inr enriched"
| "enrichHistoryLoop env (msg # rest) enriched =
     (case attachments msg of
        None \<Rightarrow> enrichHistoryLoop env rest (enriched @ [msg])
      | Some as \<Rightarrow>
          if role msg = User \<and> length as > 0 then
            (case someT (\<lambda>att. isDocumentAttachment env (mediaType att)) as of
               Inl t \<Rightarrow> Inl t
             | Inr hasDocuments \<Rightarrow>
                 if hasDocuments then
                   (case enrichMessageWithDocuments env (content msg) (attachments msg) of
                      Inl t \<Rightarrow> Inl t
                    | Inr enrichedContent \<Rightarrow>
                        enrichHistoryLoop env rest (enriched @ [msg\<lparr>content := enrichedContent\<rparr>]))
                 else enrichHistoryLoop env rest (enriched @ [msg]))
          else enrichHistoryLoop env rest (enriched @ [msg]))"

definition enrichHistoryWithDocuments ::
  "Env \<Rightarrow> ChatMessage list \<Rightarrow> thrown + ChatMessage list" where
  "enrichHistoryWithDocuments env history = enrichHistoryLoop env history []"

subsection \<open>Effects\<close>

text \<open>\<open>webContents.send\<close>, \<open>appendMessage\<close>.\<close>

definition send :: "IpcEvent \<Rightarrow> State \<Rightarrow> State" where
  "send e st = st\<lparr>sent := sent st @ [e]\<rparr>"

definition appendMessage :: "jsstring \<Rightarrow> ChatMessage \<Rightarrow> State \<Rightarrow> State" where
  "appendMessage cid msg st =
     st\<lparr>conversations := (conversations st)(cid := conversations st cid @ [msg])\<rparr>"

subsection \<open>Memory tools (lines 234-275)\<close>

text \<open>\<open>toolCall.arguments.k\<close>\<close>

definition argument :: "ToolCall \<Rightarrow> jsstring \<Rightarrow> jsval" where
  "argument toolCall k =
     (case map_of (arguments_tc toolCall) k of None \<Rightarrow> Undefined | Some v \<Rightarrow> v)"

definition executeMemoryToolCall :: "Env \<Rightarrow> ToolCall \<Rightarrow> MemoryConfig \<Rightarrow> ToolResult" where
  "executeMemoryToolCall env toolCall memoryConfig =
     (let credentials =
            \<lparr> apiKey_cr = apiKey_mc memoryConfig,
              userId_cr = (case userId_mc memoryConfig of
                             None \<Rightarrow> str ''proma-user''
                           | Some u \<Rightarrow> if trim u \<noteq> [] then trim u else str ''proma-user''),
              baseUrl_cr = baseUrl_mc memoryConfig \<rparr>;
          attempt =
            (if name_tc toolCall = str ''recall_memory'' then
               (let query = argument toolCall (str ''query'')
                in case searchMemory env credentials query of
                     Inl error \<Rightarrow> Inl error
                   | Inr result \<Rightarrow>
                       Inr \<lparr> toolCallId = id_tc toolCall,
                             content_tr = formatSearchResult env result,
                             isError = None \<rparr>)
             else if name_tc toolCall = str ''add_memory'' then
               (let userMessage0 = argument toolCall (str ''userMessage'');
                    assistantMessage0 = argument toolCall (str ''assistantMessage'')
                in case addMemory env credentials userMessage0 assistantMessage0 of
                     Inl error \<Rightarrow> Inl error
                   | Inr _ \<Rightarrow>
                       Inr \<lparr> toolCallId = id_tc toolCall,
                             content_tr = str ''Memory stored successfully.'',
                             isError = None \<rparr>)
             else
               Inr \<lparr> toolCallId = id_tc toolCall,
                     content_tr = str ''Unknown tool: '' @ name_tc toolCall,
                     isError = Some True \<rparr>)
      in case attempt of
           Inr toolResult \<Rightarrow> toolResult
         | Inl error \<Rightarrow>
             (let msg = (case error of ErrorObject m \<Rightarrow> m | OtherValue v \<Rightarrow> v)
              in \<lparr> toolCallId = id_tc toolCall,
                   content_tr = str ''Tool execution failed: '' @ msg,
                   isError = Some True \<rparr>))"

subsection \<open>The tool-continuation loop (lines 366-452)\<close>

text \<open>The \<open>onEvent\<close> callback of lines 391-415.\<close>

fun onEvent :: "jsstring \<Rightarrow> State \<Rightarrow> jsstring StreamEvent \<Rightarrow> State" where
  "onEvent cid st (Chunk delta) =
     send (STREAM_CHUNK cid delta) (st\<lparr>accumulatedContent := accumulatedContent st @ delta\<rparr>)"
| "onEvent cid st (ReasoningDelta delta) =
     send (STREAM_REASONING cid delta)
       (st\<lparr>accumulatedReasoning := accumulatedReasoning st @ delta\<rparr>)"
| "onEvent cid st (ToolCallStart tcId tcName _) =
     send (STREAM_TOOL_ACTIVITY cid (ActivityStart tcName tcId)) st"
| "onEvent cid st (ToolCallDelta _ _) = st"
| "onEvent cid st (Done _) = st"

text \<open>The loop over the returned tool calls (lines 424-442), with \<open>toolResults\<close> and the state.\<close>

fun executeToolCalls ::
  "Env \<Rightarrow> jsstring \<Rightarrow> MemoryConfig \<Rightarrow> ToolCall list \<Rightarrow> State \<times> ToolResult list
     \<Rightarrow> State \<times> ToolResult list" where
  "executeToolCalls env cid memoryConfig [] acc = acc"
| "executeToolCalls env cid memoryConfig (tc # tcs) (st, toolResults) =
     (if name_tc tc = str ''recall_memory'' \<or> name_tc tc = str ''add_memory'' then
        (let result = executeMemoryToolCall env tc memoryConfig;
             toolResults = toolResults @ [result];
             st = send (STREAM_TOOL_ACTIVITY cid
                          (ActivityResult (name_tc tc) (id_tc tc) (content_tr result)
                             (isError result))) st
         in executeToolCalls env cid memoryConfig tcs (st, toolResults))
      else executeToolCalls env cid memoryConfig tcs (st, toolResults))"

text \<open>
  The \<open>while (round < MAX_TOOL_ROUNDS)\<close> loop. \<open>round_no\<close> is \<open>round\<close> at the loop test.
  The result is the state and, when the body threw, the thrown value with the abort flag.
\<close>

function toolLoop ::
  "Env \<Rightarrow> jsstring \<Rightarrow> jsstring \<Rightarrow> MemoryConfig \<Rightarrow> StreamRequestInput
     \<Rightarrow> ContinuationMessage list \<Rightarrow> nat \<Rightarrow> State \<Rightarrow> State \<times> (thrown \<times> bool) option" where
  "toolLoop env cid prov memoryConfig base continuationMessages round_no st =
     (if round_no < MAX_TOOL_ROUNDS then
        (let request = base\<lparr>continuationMessages_rq :=
                              (if length continuationMessages > 0
                               then Some continuationMessages else None)\<rparr>;
             run = streamSSE env (length (requests st)) prov request;
             st = st\<lparr>requests := requests st @ [request]\<rparr>;
             st = foldl (onEvent cid) st (events run)
         in case outcome run of
              Rejected error aborted \<Rightarrow> (st, Some (error, aborted))
            | Resolved res \<Rightarrow>
                (case toolCalls_sr res of
                   None \<Rightarrow> (st, None)
                 | Some tcs \<Rightarrow>
                     if length tcs = 0 \<or> stopReason_sr res \<noteq> Some (str ''tool_use'')
                     then (st, None)
                     else
                       (case executeToolCalls env cid memoryConfig tcs (st, []) of
                          (st, toolResults) \<Rightarrow>
                            toolLoop env cid prov memoryConfig base
                              (continuationMessages
                                 @ [AssistantTurn (content_sr res) tcs, ToolTurn toolResults])
                              (Suc round_no) st)))
      else (st, None))"
  by pat_completeness auto
termination
  by (relation "measure (\<lambda>(env, cid, prov, memoryConfig, base, cont, round_no, st).
        MAX_TOOL_ROUNDS - round_no)") auto

subsection \<open>sendMessage (lines 287-530)\<close>

text \<open>
  The result of a run of \<open>sendMessage\<close> is the state it leaves and, when the promise it
  returns rejects, the value it rejects with.

  Steps 1-2 (lines 297-318): the channel and its key, or the result of the run when it
  ends here: an early return after \<open>STREAM_ERROR\<close>, or the exception of \<open>listChannels\<close>,
  which nothing catches.
\<close>

definition checkChannel ::
  "Env \<Rightarrow> ChatSendInput \<Rightarrow> State \<Rightarrow> (State \<times> thrown option) + (Channel \<times> jsstring)" where
  "checkChannel env input st =
     (case listChannels env of
        Inl t \<Rightarrow> Inl (st, Some t)
      | Inr channels \<Rightarrow>
          (case find (\<lambda>c. id_ch c = channelId input) channels of
             None \<Rightarrow>
               Inl (send (STREAM_ERROR (conversationId input) channelNotFoundText) st, None)
           | Some channel \<Rightarrow>
               (case decryptApiKey env (channelId input) of
                  Inl _ \<Rightarrow>
                    Inl (send (STREAM_ERROR (conversationId input) decryptFailedText) st, None)
                | Inr apiKey \<Rightarrow> Inr (channel, apiKey))))"

text \<open>The user message of step 4 (lines 324-330).\<close>

definition userMsg :: "Env \<Rightarrow> ChatSendInput \<Rightarrow> ChatMessage" where
  "userMsg env input =
     \<lparr> id_msg = randomUUID env 0,
       role = User,
       content = userMessage input,
       createdAt = dateNow env 0,
       attachments = (case attachments_in input of
                        None \<Rightarrow> None
                      | Some as \<Rightarrow> if length as > 0 then Some as else None),
       model = None,
       reasoning = None,
       stopped = None \<rparr>"

text \<open>
  Steps 3-6 (lines 321-344): read the history, append the user message, filter and enrich,
  register the controller, reset the accumulators. These lines stand before the \<open>try\<close>:
  an exception of the store or of the enrichment leaves \<open>sendMessage\<close> at once. The result
  is either the state reached with the thrown value, or the state at the entry of the
  \<open>try\<close> with the enriched history and the enriched user message.
\<close>

definition startGeneration ::
  "Env \<Rightarrow> ChatSendInput \<Rightarrow> State
     \<Rightarrow> (State \<times> thrown) + (State \<times> ChatMessage list \<times> jsstring)" where
  "startGeneration env input st =
     (let cid = conversationId input
      in case getConversationMessagesThrows env cid of
           Some t \<Rightarrow> Inl (st, t)
         | None \<Rightarrow>
             (let fullHistory = conversations st cid
              in case appendMessageThrows env AppendUser of
                   Some t \<Rightarrow> Inl (st, t)
                 | None \<Rightarrow>
                     (let st = appendMessage cid (userMsg env input) st;
                          filteredHistory =
                            filterHistory fullHistory (contextDividers input) (contextLength input)
                      in case enrichHistoryWithDocuments env filteredHistory of
                           Inl t \<Rightarrow> Inl (st, t)
                         | Inr enrichedHistory \<Rightarrow>
                             (case enrichMessageWithDocuments env (userMessage input)
                                     (attachments_in input) of
                                Inl t \<Rightarrow> Inl (st, t)
                              | Inr enrichedUserMessage \<Rightarrow>
                                  (let st = st\<lparr>activeControllers :=
                                              (activeControllers st)(cid \<mapsto> newController env)\<rparr>;
                                       st = st\<lparr>accumulatedContent := [],
                                               accumulatedReasoning := []\<rparr>
                                   in Inr (st, enrichedHistory, enrichedUserMessage))))))"

text \<open>Steps 7-9 (lines 347-452): the set-up and the loop.\<close>

definition runRounds ::
  "Env \<Rightarrow> ChatSendInput \<Rightarrow> Channel \<Rightarrow> jsstring \<Rightarrow> ChatMessage list \<Rightarrow> jsstring \<Rightarrow> State
     \<Rightarrow> State \<times> (thrown \<times> bool) option" where
  "runRounds env input channel apiKey enrichedHistory enrichedUserMessage st =
     (case setupThrows env of
        Some t \<Rightarrow> (st, Some t)
      | None \<Rightarrow>
          (let memoryConfig = getMemoryConfig env;
               memoryEnabled = (enabled memoryConfig \<and> apiKey_mc memoryConfig \<noteq> []);
               tools = (if memoryEnabled then Some MEMORY_TOOLS else None);
               effectiveSystemMessage =
                 (case systemMessage input of
                    Some m \<Rightarrow>
                      if memoryEnabled \<and> m \<noteq> [] then Some (m @ MEMORY_SYSTEM_PROMPT)
                      else if memoryEnabled then Some MEMORY_SYSTEM_PROMPT
                      else Some m
                  | None \<Rightarrow> if memoryEnabled then Some MEMORY_SYSTEM_PROMPT else None);
               base = \<lparr> baseUrl_rq = baseUrl_ch channel,
                        apiKey_rq = apiKey,
                        modelId_rq = modelId input,
                        history_rq = enrichedHistory,
                        userMessage_rq = enrichedUserMessage,
                        systemMessage_rq = effectiveSystemMessage,
                        attachments_rq = attachments_in input,
                        thinkingEnabled_rq = thinkingEnabled input,
                        tools_rq = tools,
                        continuationMessages_rq = None \<rparr>
           in toolLoop env (conversationId input) (provider channel) memoryConfig base [] 0 st))"

text \<open>
  Steps 3-9 together: either the exception thrown before the \<open>try\<close>, with the state
  reached, or the state and the thrown value, if any, when the loop is left.
\<close>

definition generation ::
  "Env \<Rightarrow> ChatSendInput \<Rightarrow> Channel \<Rightarrow> jsstring \<Rightarrow> State
     \<Rightarrow> (State \<times> thrown) + (State \<times> (thrown \<times> bool) option)" where
  "generation env input channel apiKey st =
     (case startGeneration env input st of
        Inl x \<Rightarrow> Inl x
      | Inr (st, enrichedHistory, enrichedUserMessage) \<Rightarrow>
          Inr (runRounds env input channel apiKey enrichedHistory enrichedUserMessage st))"

text \<open>
  The assistant message built at lines 457-464 and 490-498. \<open>n\<close> says which call of
  \<open>randomUUID\<close> and of \<open>Date.now\<close> gives its id and time (the user message took call 0);
  the flag is the \<open>stopped\<close> field.
\<close>

definition assistantMsg ::
  "Env \<Rightarrow> ChatSendInput \<Rightarrow> State \<Rightarrow> nat \<Rightarrow> bool option \<Rightarrow> ChatMessage" where
  "assistantMsg env input st n flag =
     \<lparr> id_msg = randomUUID env n,
       role = Assistant,
       content = accumulatedContent st,
       createdAt = dateNow env n,
       attachments = None,
       model = Some (modelId input),
       reasoning = (if accumulatedReasoning st \<noteq> [] then Some (accumulatedReasoning st) else None),
       stopped = flag \<rparr>"

text \<open>
  \<open>updateConversationMeta\<close> inside its own \<open>try\<close> with an empty \<open>catch\<close> (lines 468-472 and
  501-505): the store of messages and the events are the same whether it throws or not.
\<close>

definition touchConversation :: "Env \<Rightarrow> jsstring \<Rightarrow> State \<Rightarrow> State" where
  "touchConversation env cid st =
     (case updateConversationMeta env cid of Inl _ \<Rightarrow> st | Inr _ \<Rightarrow> st)"

text \<open>
  Step 10 (lines 454-481), still inside the \<open>try\<close>: the state it leaves, or the exception
  of the append.
\<close>

definition saveAssistant :: "Env \<Rightarrow> ChatSendInput \<Rightarrow> State \<Rightarrow> thrown + State" where
  "saveAssistant env input st =
     (let cid = conversationId input;
          assistantMsgId = randomUUID env 1;
          nonEmpty = (trim (accumulatedContent st) \<noteq> [])
      in if nonEmpty then
           (case appendMessageThrows env AppendAssistant of
              Some t \<Rightarrow> Inl t
            | None \<Rightarrow>
                (let st = appendMessage cid (assistantMsg env input st 1 None) st;
                     st = touchConversation env cid st
                 in Inr (send (STREAM_COMPLETE cid (modelId input) (Some assistantMsgId)) st)))
         else Inr (send (STREAM_COMPLETE cid (modelId input) None) st))"

text \<open>
  The \<open>catch\<close> block (lines 482-526): the state it leaves, or the exception of the append
  of line 499, which leaves \<open>sendMessage\<close>. \<open>n\<close> is the number of calls of \<open>randomUUID\<close>
  made so far: 1 when the loop threw, 2 when step 10 threw.
\<close>

definition onThrown ::
  "Env \<Rightarrow> ChatSendInput \<Rightarrow> nat \<Rightarrow> thrown \<Rightarrow> bool \<Rightarrow> State \<Rightarrow> thrown + State" where
  "onThrown env input n error aborted st =
     (let cid = conversationId input
      in if aborted then
           (if accumulatedContent st \<noteq> [] then
              (let assistantMsgId = randomUUID env n
               in case appendMessageThrows env AppendPartial of
                    Some t \<Rightarrow> Inl t
                  | None \<Rightarrow>
                      (let st = appendMessage cid (assistantMsg env input st n (Some True)) st;
                           st = touchConversation env cid st
                       in Inr (send (STREAM_COMPLETE cid (modelId input) (Some assistantMsgId)) st)))
            else Inr (send (STREAM_COMPLETE cid (modelId input) None) st))
         else
           (let errorMessage = (case error of ErrorObject m \<Rightarrow> m | OtherValue _ \<Rightarrow> unknownErrorText)
            in Inr (send (STREAM_ERROR cid errorMessage) st)))"

text \<open>
  Step 10 or the \<open>catch\<close> block, then the \<open>finally\<close> block (lines 527-529), which runs
  also when the \<open>catch\<close> block throws.
\<close>

definition finishGeneration ::
  "Env \<Rightarrow> ChatSendInput \<Rightarrow> State \<times> (thrown \<times> bool) option \<Rightarrow> State \<times> thrown option" where
  "finishGeneration env input r =
     (case r of
        (st, thrownValue) \<Rightarrow>
          (let caught =
                 (case thrownValue of
                    None \<Rightarrow>
                      (case saveAssistant env input st of
                         Inr st' \<Rightarrow> Inr st'
                       | Inl t \<Rightarrow> onThrown env input 2 t (abortedAfterLoop env) st)
                  | Some (error, aborted) \<Rightarrow> onThrown env input 1 error aborted st);
               unregister =
                 (\<lambda>s. s\<lparr>activeControllers := (activeControllers s)(conversationId input := None)\<rparr>)
           in case caught of
                Inr st' \<Rightarrow> (unregister st', None)
              | Inl t \<Rightarrow> (unregister st, Some t)))"

definition sendMessage :: "Env \<Rightarrow> ChatSendInput \<Rightarrow> State \<Rightarrow> State \<times> thrown option" where
  "sendMessage env input st =
     (case checkChannel env input st of
        Inl r \<Rightarrow> r
      | Inr (channel, apiKey) \<Rightarrow>
          (case generation env input channel apiKey st of
             Inl (st', t) \<Rightarrow> (st', Some t)
           | Inr g \<Rightarrow> finishGeneration env input g))"

text \<open>The terminal events, and the text deltas among the events sent.\<close>

fun isTerminal :: "IpcEvent \<Rightarrow> bool" where
  "isTerminal (STREAM_COMPLETE _ _ _) = True"
| "isTerminal (STREAM_ERROR _ _) = True"
| "isTerminal _ = False"

fun chunkDeltas :: "IpcEvent list \<Rightarrow> jsstring" where
  "chunkDeltas [] = []"
| "chunkDeltas (STREAM_CHUNK _ delta # es) = delta @ chunkDeltas es"
| "chunkDeltas (_ # es) = chunkDeltas es"

text \<open>The events sent between two states of a run.\<close>

definition newEvents :: "State \<Rightarrow> State \<Rightarrow> IpcEvent list" where
  "newEvents st st' = drop (length (sent st)) (sent st')"

text \<open>
  What the loop preserves from a state \<open>st\<close> to a later state \<open>st'\<close>: the store and the
  registry are untouched, events are only added and none of them is terminal, the content
  accumulator grows by the text deltas sent, and requests are only added.
\<close>

definition progress :: "State \<Rightarrow> State \<Rightarrow> bool" where
  "progress st st' \<longleftrightarrow>
     conversations st' = conversations st
     \<and> activeControllers st' = activeControllers st
     \<and> sent st' = sent st @ newEvents st st'
     \<and> filter isTerminal (newEvents st st') = []
     \<and> accumulatedContent st' = accumulatedContent st @ chunkDeltas (newEvents st st')
     \<and> take (length (requests st)) (requests st') = requests st"

text \<open>A stream that resolves asking for tools: tool calls and the stop reason \<open>tool_use\<close>.\<close>

definition keepsCallingTools :: "StreamRun \<Rightarrow> bool" where
  "keepsCallingTools run =
     (case outcome run of
        Rejected _ _ \<Rightarrow> False
      | Resolved res \<Rightarrow>
          (case toolCalls_sr res of
             None \<Rightarrow> False
           | Some tcs \<Rightarrow> length tcs > 0 \<and> stopReason_sr res = Some (str ''tool_use'')))"

section \<open>Example data\<close>

definition message :: "string \<Rightarrow> MessageRole \<Rightarrow> string \<Rightarrow> ChatMessage" where
  "message i r c =
     \<lparr> id_msg = str i, role = r, content = str c, createdAt = 0,
       attachments = None, model = None, reasoning = None, stopped = None \<rparr>"

text \<open>A history of five messages; the second is an assistant message of two spaces.\<close>

definition exampleHistory :: "ChatMessage list" where
  "exampleHistory =
     [message ''m1'' User ''hi'', message ''m2'' Assistant ''  '',
      message ''m3'' Assistant ''yo'', message ''m4'' User ''q2'',
      message ''m5'' Assistant ''a2'']"

text \<open>A parser that accepts the text \<open>null\<close> and rejects every other line.\<close>

definition exampleParse :: "jsstring \<Rightarrow> jserror + jsval" where
  "exampleParse line = (if line = str ''null'' then Inr JNull else Inl SyntaxError)"

text \<open>
  What \<open>JSON.parse\<close> gives for an Anthropic text frame
  \<open>{type: 'content_block_delta', delta: {type: 'text_delta', text: 'Hi'}}\<close> and for a Google
  frame whose second part is \<open>null\<close>.
\<close>

definition exampleTextFrame :: jsval where
  "exampleTextFrame =
     JObj [(str ''type'', JStr (str ''content_block_delta'')),
           (str ''delta'', JObj [(str ''type'', JStr (str ''text_delta'')),
                                 (str ''text'', JStr (str ''Hi''))])]"

definition exampleBrokenParts :: jsval where
  "exampleBrokenParts =
     JObj [(str ''candidates'',
        JArr [JObj [(str ''content'',
          JObj [(str ''parts'', JArr [JObj [(str ''text'', JStr (str ''Hi''))], JNull])])]])]"

definition exampleTitleInput :: TitleRequestInput where
  "exampleTitleInput =
     \<lparr> baseUrl_tr = str ''https://example.test'', apiKey_tr = str ''k'',
       modelId_tr = str ''gemini-2.5-flash'', prompt = str ''Hello'' \<rparr>"

text \<open>
  A world with one channel \<open>ch1\<close>, memory tools enabled, and a script that gives the run
  of the n-th stream request.
\<close>

definition exampleEnv :: "(nat \<Rightarrow> StreamRun) \<Rightarrow> Env" where
  "exampleEnv script =
     \<lparr> listChannels = Inr [\<lparr> id_ch = str ''ch1'', provider = str ''anthropic'',
                              baseUrl_ch = str ''https://api.example.test'' \<rparr>],
       decryptApiKey = (\<lambda>c. if c = str ''ch1'' then Inr (str ''sk'')
                             else Inl (ErrorObject (str ''no key''))),
       getConversationMessagesThrows = (\<lambda>_. None),
       appendMessageThrows = (\<lambda>_. None),
       abortedAfterLoop = False,
       randomUUID = (\<lambda>n. if n = 0 then str ''uuid-user'' else str ''uuid-assistant''),
       dateNow = (\<lambda>n. int n),
       newController = 0,
       isDocumentAttachment = (\<lambda>_. Inr False),
       extractTextFromAttachment = (\<lambda>_. Inr []),
       setupThrows = None,
       getMemoryConfig = \<lparr> enabled = True, apiKey_mc = str ''mk'', userId_mc = None,
                           baseUrl_mc = None \<rparr>,
       streamSSE = (\<lambda>n _ _. script n),
       searchMemory = (\<lambda>_ _. Inr \<lparr> facts = [], preferences = [] \<rparr>),
       formatSearchResult = (\<lambda>_. str ''No memories found.''),
       addMemory = (\<lambda>_ _ _. Inr ()),
       updateConversationMeta = (\<lambda>_. Inr ()) \<rparr>"

definition exampleInput :: ChatSendInput where
  "exampleInput =
     \<lparr> conversationId = str ''c1'', userMessage = str ''Hi'', channelId = str ''ch1'',
       modelId = str ''m'', systemMessage = None, contextLength = Some Infinite,
       contextDividers = None, attachments_in = None, thinkingEnabled = None \<rparr>"

definition emptyState :: State where
  "emptyState =
     \<lparr> activeControllers = Map.empty, conversations = (\<lambda>_. []), sent = [], requests = [],
       accumulatedContent = [], accumulatedReasoning = [] \<rparr>"





text \<open>A stream with text that ends normally; one that fails without an abort.\<close>

definition textCompleted :: "nat \<Rightarrow> StreamRun" where
  "textCompleted n =
     \<lparr> events = [Chunk (str ''Hello''), Done (str ''end_turn'')],
       outcome = Resolved \<lparr> content_sr = str ''Hello'', reasoning_sr = [], toolCalls_sr = None,
                            stopReason_sr = Some (str ''end_turn'') \<rparr> \<rparr>"


text \<open>
  A stream whose first round asks for the tool \<open>web_search\<close>, which is not a memory tool,
  and whose later rounds answer with text.
\<close>

definition webSearchCall :: ToolCall where
  "webSearchCall =
     \<lparr> id_tc = str ''call_1'', name_tc = str ''web_search'',
       arguments_tc = [(str ''q'', JStr (str ''x''))], metadata_tc = None \<rparr>"

definition unknownToolScript :: "nat \<Rightarrow> StreamRun" where
  "unknownToolScript n =
     (if n = 0 then
        \<lparr> events = [ToolCallStart (str ''call_1'') (str ''web_search'') None,
                    Done (str ''tool_use'')],
          outcome = Resolved \<lparr> content_sr = [], reasoning_sr = [],
                               toolCalls_sr = Some [webSearchCall],
                               stopReason_sr = Some (str ''tool_use'') \<rparr> \<rparr>
      else textCompleted n)"

text \<open>A stream that asks for \<open>recall_memory\<close> in every round.\<close>

definition recallCall :: ToolCall where
  "recallCall =
     \<lparr> id_tc = str ''call_r'', name_tc = str ''recall_memory'',
       arguments_tc = [(str ''query'', JStr (str ''x''))], metadata_tc = None \<rparr>"

definition toolsForever :: "nat \<Rightarrow> StreamRun" where
  "toolsForever n =
     \<lparr> events = [Chunk (str ''a''), Done (str ''tool_use'')],
       outcome = Resolved \<lparr> content_sr = str ''a'', reasoning_sr = [],
                            toolCalls_sr = Some [recallCall],
                            stopReason_sr = Some (str ''tool_use'') \<rparr> \<rparr>"

text \<open>A state whose registry already holds handles for two conversations.\<close>

definition busyState :: State where
  "busyState = emptyState\<lparr>activeControllers := [str ''c1'' \<mapsto> 7, str ''c2'' \<mapsto> 8]\<rparr>"

text \<open>
  The world of \<open>exampleEnv\<close> with a store that refuses the append of the user message, and
  with a store that refuses the append of the partial turn.
\<close>

definition userAppendFails :: "(nat \<Rightarrow> StreamRun) \<Rightarrow> Env" where
  "userAppendFails script =
     (exampleEnv script)
       \<lparr>appendMessageThrows :=
          (\<lambda>site. if site = AppendUser then Some (ErrorObject (str ''EACCES'')) else None)\<rparr>"


text \<open>The example input with a channel id that no channel has.\<close>

definition orphanInput :: ChatSendInput where
  "orphanInput = exampleInput\<lparr>channelId := str ''gone''\<rparr>"

section \<open>Properties of the history filter\<close>

lemma str_eq_iff [simp]: "str a = str b \<longleftrightarrow> a = b"
proof -
  have "inj (\<lambda>c::char. (of_nat (of_char c :: nat) :: 16 word))"
  proof (rule injI)
    fix x y :: char
    assume "(of_nat (of_char x :: nat) :: 16 word) = of_nat (of_char y)"
    moreover have "(of_char x :: nat) < 2 ^ 16" "(of_char y :: nat) < 2 ^ 16"
      by (rule order_less_trans[OF nat_of_char_less_256], simp)+
    ultimately have "(of_char x :: nat) = of_char y"
      by (simp add: word_of_nat_eq_iff take_bit_nat_eq_self)
    then show "x = y" by simp
  qed
  then show ?thesis unfolding str_def by (simp add: inj_map_eq_map)
qed

lemma str_Nil [simp]: "str [] = []" "str s = [] \<longleftrightarrow> s = []" "[] = str s \<longleftrightarrow> s = []"
  by (auto simp: str_def)

lemma trim_examples: "trim (str ''  '') = []" "trim (str ''yo'') \<noteq> []" "trim (str ''a2'') \<noteq> []"
  by (simp_all add: trim_def str_def isWhiteSpace_def)

lemma message_sel [simp]:
  "id_msg (message i r c) = str i" "role (message i r c) = r" "content (message i r c) = str c"
  by (simp_all add: message_def)

lemma ex_filtered: "dropEmptyAssistant exampleHistory = [message ''m1'' User ''hi'',
     message ''m3'' Assistant ''yo'', message ''m4'' User ''q2'', message ''m5'' Assistant ''a2'']"
  by (simp add: dropEmptyAssistant_def exampleHistory_def trim_examples)

lemma ex_trimmed: "applyDividers (dropEmptyAssistant exampleHistory) (Some [str ''m0'', str ''m1''])
   = [message ''m3'' Assistant ''yo'', message ''m4'' User ''q2'', message ''m5'' Assistant ''a2'']"
  by (simp add: ex_filtered applyDividers_def Let_def)

lemma rounds_drop_le: "rounds (drop k ms) \<le> rounds ms"
proof -
  have "rounds ms = rounds (take k ms) + rounds (drop k ms)"
    unfolding rounds_def by (metis append_take_drop_id filter_append length_append)
  then show ?thesis by simp
qed

lemma rounds_drop_Suc:
  assumes "i < length ms"
  shows "rounds (drop i ms) = (if role (ms ! i) = User then 1 else 0) + rounds (drop (Suc i) ms)"
proof -
  have "drop i ms = ms ! i # drop (Suc i) ms"
    using assms by (simp add: Cons_nth_drop_Suc)
  then show ?thesis by (simp add: rounds_def)
qed

text \<open>
  The loop invariant: \<open>collected\<close> is the part of \<open>filtered\<close> from position \<open>k\<close> on and
  \<open>roundCount\<close> counts its user messages, still below the limit.
\<close>

lemma collectRounds_inv:
  assumes "k \<le> length filtered"
    and "int (rounds (drop k filtered)) < n"
  shows "\<exists>j \<le> k. collectRounds filtered n k (rounds (drop k filtered)) (drop k filtered)
                    = drop j filtered
               \<and> int (rounds (drop j filtered)) = min n (int (rounds filtered))
               \<and> (n \<le> int (rounds filtered) \<longrightarrow> j < length filtered \<and> role (filtered ! j) = User)"
  using assms
proof (induction k)
  case 0
  then show ?case by (intro exI[of _ 0]) simp
next
  case (Suc i)
  from Suc.prems have i_lt: "i < length filtered" by simp
  have cons: "filtered ! i # drop (Suc i) filtered = drop i filtered"
    using i_lt by (simp add: Cons_nth_drop_Suc)
  show ?case
  proof (cases "role (filtered ! i) = User")
    case False
    then have same: "rounds (drop i filtered) = rounds (drop (Suc i) filtered)"
      using rounds_drop_Suc[OF i_lt] by simp
    with Suc.prems have "int (rounds (drop i filtered)) < n" by simp
    with Suc.IH i_lt obtain j where j: "j \<le> i"
      "collectRounds filtered n i (rounds (drop i filtered)) (drop i filtered) = drop j filtered"
      "int (rounds (drop j filtered)) = min n (int (rounds filtered))"
      "n \<le> int (rounds filtered) \<longrightarrow> j < length filtered \<and> role (filtered ! j) = User"
      by auto
    show ?thesis
      using False j same cons by (intro exI[of _ j]) (simp add: Let_def)
  next
    case True
    then have more: "rounds (drop i filtered) = rounds (drop (Suc i) filtered) + 1"
      using rounds_drop_Suc[OF i_lt] by simp
    show ?thesis
    proof (cases "int (rounds (drop i filtered)) \<ge> n")
      case reached: True
      with Suc.prems more have eq: "int (rounds (drop i filtered)) = n" by simp
      moreover have "rounds (drop i filtered) \<le> rounds filtered" by (rule rounds_drop_le)
      ultimately have "int (rounds (drop i filtered)) = min n (int (rounds filtered))" by simp
      then show ?thesis
        using True reached more cons i_lt by (intro exI[of _ i]) (simp add: Let_def)
    next
      case below: False
      then have "int (rounds (drop i filtered)) < n" by simp
      with Suc.IH i_lt obtain j where j: "j \<le> i"
        "collectRounds filtered n i (rounds (drop i filtered)) (drop i filtered) = drop j filtered"
        "int (rounds (drop j filtered)) = min n (int (rounds filtered))"
        "n \<le> int (rounds filtered) \<longrightarrow> j < length filtered \<and> role (filtered ! j) = User"
        by auto
      show ?thesis
        using True below j more cons by (intro exI[of _ j]) (simp add: Let_def)
    qed
  qed
qed

lemma collectRounds_result:
  assumes "0 < n"
  shows "\<exists>j. collectRounds filtered n (length filtered) 0 [] = drop j filtered
             \<and> int (rounds (drop j filtered)) = min n (int (rounds filtered))
             \<and> (n \<le> int (rounds filtered) \<longrightarrow> j < length filtered \<and> role (filtered ! j) = User)"
proof -
  have "int (rounds (drop (length filtered) filtered)) < n"
    using assms by (simp add: rounds_def)
  from collectRounds_inv[OF le_refl this] show ?thesis
    by (auto simp: rounds_def)
qed


lemma findIndex_none: "(\<forall>x \<in> set xs. \<not> P x) \<Longrightarrow> findIndex P xs = -1"
  by (induction xs) auto

lemma findIndex_first:
  "(\<forall>x \<in> set pre. \<not> P x) \<Longrightarrow> P m \<Longrightarrow> findIndex P (pre @ m # post) = int (length pre)"
  by (induction pre) (auto simp: Let_def)

lemma suffix_drop: "suffix (drop j xs) xs"
  by (metis append_take_drop_id suffixI)

text \<open>
  C5. The history filter returns a suffix of the empty-assistant-filtered, divider-trimmed
  history. For a numeric policy \<open>n \<ge> 0\<close> that suffix holds exactly \<open>min n r\<close> rounds, where
  \<open>r\<close> is the number of user messages of the trimmed history and a round is counted per
  user-role message; when \<open>0 < n \<le> r\<close> the suffix starts at a user message. The policy 0
  gives the empty list; the policy \<open>'infinite'\<close> and an absent policy give the trimmed
  history unchanged.
\<close>

theorem filterHistory_rounds:
  "let trimmed = applyDividers (dropEmptyAssistant H) ds;
       result = filterHistory H ds P
   in suffix result trimmed
      \<and> (\<forall>n. P = Some (Number n) \<and> 0 \<le> n \<longrightarrow>
             int (rounds result) = min n (int (rounds trimmed)))
      \<and> (\<forall>n. P = Some (Number n) \<and> 0 < n \<and> n \<le> int (rounds trimmed) \<longrightarrow>
             result \<noteq> [] \<and> role (hd result) = User)
      \<and> (P = Some (Number 0) \<longrightarrow> result = [])
      \<and> (P = Some Infinite \<or> P = None \<longrightarrow> result = trimmed)"
proof -
  define trimmed where "trimmed = applyDividers (dropEmptyAssistant H) ds"
  define result where "result = filterHistory H ds P"
  have other: "result = trimmed" if "P = Some Infinite \<or> P = None"
    using that by (auto simp: result_def trimmed_def filterHistory_def)
  have neg: "result = trimmed" if "P = Some (Number n)" "n < 0" for n
    using that by (simp add: result_def trimmed_def filterHistory_def)
  have zero: "result = []" if "P = Some (Number 0)"
    using that by (simp add: result_def filterHistory_def)
  have pos: "\<exists>j. result = drop j trimmed
                 \<and> int (rounds (drop j trimmed)) = min n (int (rounds trimmed))
                 \<and> (n \<le> int (rounds trimmed) \<longrightarrow> j < length trimmed \<and> role (trimmed ! j) = User)"
    if "P = Some (Number n)" "0 < n" for n
  proof -
    from that have "result = collectRounds trimmed n (length trimmed) 0 []"
      by (simp add: result_def trimmed_def filterHistory_def Let_def)
    with collectRounds_result[OF that(2), of trimmed] show ?thesis by simp
  qed
  have suf: "suffix result trimmed"
  proof (cases P)
    case None
    with other show ?thesis by simp
  next
    case (Some p)
    show ?thesis
    proof (cases p)
      case Infinite
      with Some other show ?thesis by simp
    next
      case (Number n)
      consider "n < 0" | "n = 0" | "0 < n" by linarith
      then show ?thesis
      proof cases
        case 1
        with neg Some Number show ?thesis by simp
      next
        case 2
        with zero Some Number show ?thesis by simp
      next
        case 3
        with pos Some Number obtain j where "result = drop j trimmed" by blast
        then show ?thesis by (simp add: suffix_drop)
      qed
    qed
  qed
  have cnt: "int (rounds result) = min n (int (rounds trimmed))"
    if "P = Some (Number n)" "0 \<le> n" for n
  proof (cases "n = 0")
    case True
    with zero that show ?thesis by (simp add: rounds_def)
  next
    case False
    with that have "0 < n" by simp
    from pos[OF that(1) this] show ?thesis by auto
  qed
  have start: "result \<noteq> [] \<and> role (hd result) = User"
    if "P = Some (Number n)" "0 < n" "n \<le> int (rounds trimmed)" for n
  proof -
    from pos[OF that(1,2)] that(3) obtain j where
      j: "result = drop j trimmed" "j < length trimmed" "role (trimmed ! j) = User"
      by blast
    then show ?thesis by (simp add: hd_drop_conv_nth)
  qed
  show ?thesis
    unfolding Let_def trimmed_def[symmetric] result_def[symmetric]
    using suf cnt start zero other by blast
qed

theorem filterHistory_rounds_witness:
  "suffix (filterHistory exampleHistory (Some [str ''m0'', str ''m1'']) (Some (Number 1)))
          (applyDividers (dropEmptyAssistant exampleHistory) (Some [str ''m0'', str ''m1'']))
   \<and> rounds (filterHistory exampleHistory (Some [str ''m0'', str ''m1'']) (Some (Number 1))) = 1
   \<and> role (hd (filterHistory exampleHistory (Some [str ''m0'', str ''m1'']) (Some (Number 1)))) = User
   \<and> filterHistory exampleHistory (Some [str ''m0'', str ''m1'']) (Some (Number 0)) = []
   \<and> filterHistory exampleHistory (Some [str ''m0'', str ''m1'']) (Some Infinite)
       = [message ''m3'' Assistant ''yo'', message ''m4'' User ''q2'', message ''m5'' Assistant ''a2'']"
  using filterHistory_rounds[of exampleHistory "Some [str ''m0'', str ''m1'']" "Some (Number 1)"]
        filterHistory_rounds[of exampleHistory "Some [str ''m0'', str ''m1'']" "Some (Number 0)"]
        filterHistory_rounds[of exampleHistory "Some [str ''m0'', str ''m1'']" "Some Infinite"]
  by (simp add: Let_def ex_trimmed rounds_def)

text \<open>
  C6. With a non-empty divider list, the messages kept after empty-assistant filtering are
  those strictly after the position of the last divider id in the filtered sequence (here:
  the filtered sequence is \<open>pre @ m # post\<close>, \<open>m\<close> carries the id and no message of \<open>pre\<close>
  does); when no filtered message carries that id the filtered sequence is kept whole. This
  is the value before round trimming, and the result of the filter under the \<open>'infinite'\<close>
  or absent policy.
\<close>

theorem applyDividers_last_divider:
  "ds \<noteq> [] \<Longrightarrow>
   (let filtered = dropEmptyAssistant H
    in (\<forall>pre m post.
          filtered = pre @ m # post \<and> id_msg m = last ds \<and> (\<forall>x \<in> set pre. id_msg x \<noteq> last ds)
          \<longrightarrow> applyDividers filtered (Some ds) = post
              \<and> filterHistory H (Some ds) None = post
              \<and> filterHistory H (Some ds) (Some Infinite) = post)
       \<and> ((\<forall>x \<in> set filtered. id_msg x \<noteq> last ds)
          \<longrightarrow> applyDividers filtered (Some ds) = filtered
              \<and> filterHistory H (Some ds) None = filtered
              \<and> filterHistory H (Some ds) (Some Infinite) = filtered))"
proof -
  assume ne: "ds \<noteq> []"
  define filtered where "filtered = dropEmptyAssistant H"
  have fh: "filterHistory H (Some ds) None = applyDividers filtered (Some ds)"
    "filterHistory H (Some ds) (Some Infinite) = applyDividers filtered (Some ds)"
    by (simp_all add: filterHistory_def filtered_def)
  have found: "applyDividers filtered (Some ds) = post"
    if "filtered = pre @ m # post" "id_msg m = last ds" "\<forall>x \<in> set pre. id_msg x \<noteq> last ds"
    for pre m post
  proof -
    have "findIndex (\<lambda>msg. id_msg msg = last ds) filtered = int (length pre)"
      unfolding that(1) by (rule findIndex_first) (use that in auto)
    then show ?thesis
      using ne that(1) by (simp add: applyDividers_def Let_def nat_add_distrib)
  qed
  have missing: "applyDividers filtered (Some ds) = filtered"
    if "\<forall>x \<in> set filtered. id_msg x \<noteq> last ds"
  proof -
    have "findIndex (\<lambda>msg. id_msg msg = last ds) filtered = -1"
      by (rule findIndex_none) (use that in auto)
    then show ?thesis
      using ne by (simp add: applyDividers_def Let_def)
  qed
  show ?thesis
    unfolding Let_def filtered_def[symmetric] fh
    using found missing by blast
qed

theorem applyDividers_last_divider_witness:
  "applyDividers (dropEmptyAssistant exampleHistory) (Some [str ''m0'', str ''m1''])
     = [message ''m3'' Assistant ''yo'', message ''m4'' User ''q2'', message ''m5'' Assistant ''a2'']
   \<and> filterHistory exampleHistory (Some [str ''m0'', str ''m1'']) None
     = [message ''m3'' Assistant ''yo'', message ''m4'' User ''q2'', message ''m5'' Assistant ''a2'']
   \<and> applyDividers (dropEmptyAssistant exampleHistory) (Some [str ''m1'', str ''m2''])
     = dropEmptyAssistant exampleHistory"
proof -
  have ne: "[str ''m0'', str ''m1''] \<noteq> []" "[str ''m1'', str ''m2''] \<noteq> []" by simp_all
  have found: "dropEmptyAssistant exampleHistory
      = [] @ message ''m1'' User ''hi'' # [message ''m3'' Assistant ''yo'',
           message ''m4'' User ''q2'', message ''m5'' Assistant ''a2'']
     \<and> id_msg (message ''m1'' User ''hi'') = last [str ''m0'', str ''m1'']
     \<and> (\<forall>x \<in> set []. id_msg x \<noteq> last [str ''m0'', str ''m1''])"
    by (simp add: ex_filtered)
  have absent: "\<forall>x \<in> set (dropEmptyAssistant exampleHistory). id_msg x \<noteq> last [str ''m1'', str ''m2'']"
    by (simp add: ex_filtered)
  note kept = applyDividers_last_divider[OF ne(1), of exampleHistory, unfolded Let_def,
      THEN conjunct1, rule_format, OF found]
  note whole = applyDividers_last_divider[OF ne(2), of exampleHistory, unfolded Let_def,
      THEN conjunct2, rule_format, OF absent[rule_format]]
  from kept whole show ?thesis by simp
qed

section \<open>Properties of the frame parsers\<close>

lemma tryCatch_total: "\<exists>v. tryCatch b (\<lambda>_. Inr d) = Inr v"
  by (cases b) (simp_all add: tryCatch_def)

lemma tryCatch_Inl: "b = Inl e \<Longrightarrow> tryCatch b (\<lambda>_. Inr d) = Inr d"
  by (simp add: tryCatch_def)

lemma thenE_Inl [simp]: "thenE (Inl e) f = Inl e"
  by (simp add: thenE_def)

lemma thenE_Inr [simp]: "thenE (Inr v) f = f v"
  by (simp add: thenE_def)

lemma getProp_simps [simp]:
  "getProp Undefined k = Inl TypeError"
  "getProp JNull k = Inl TypeError"
  "getProp (JObj ps) k = Inr (case map_of ps k of None \<Rightarrow> Undefined | Some x \<Rightarrow> x)"
  "getProp (JStr s) k = Inr Undefined"
  "getProp (JArr xs) k = Inr Undefined"
  "getProp (JBool b) k = Inr Undefined"
  "getProp (JNum n) k = Inr Undefined"
  by (simp_all add: getProp_def)

lemma anthropic_text_frame:
  "AnthropicAdapter_parseSSELine (\<lambda>_. Inr exampleTextFrame) line = Inr [Chunk (JStr (str ''Hi''))]"
  by (simp add: AnthropicAdapter_parseSSELine_def AnthropicAdapter_parseSSELine_try_def tryCatch_def
      exampleTextFrame_def anthropicToolCallStart_def anthropicContentBlockDelta_def
      anthropicMessageDelta_def deltaField_def optProp_def truthy_def)

lemma google_broken_parts_try:
  "GoogleAdapter_parseSSELine_try (\<lambda>_. Inr exampleBrokenParts) S line = Inl TypeError"
  by (simp add: GoogleAdapter_parseSSELine_try_def
      exampleBrokenParts_def optIndex0_def optProp_def truthy_def iterate_def googlePartEvents_def)

text \<open>
  C7. For every line and every behaviour of \<open>JSON.parse\<close>, the frame parsers of the Anthropic
  and of the Google adapter return a list of events: no exception leaves them. When
  \<open>JSON.parse\<close> throws, and more generally when anything inside the \<open>try\<close> throws (a
  parsed value of an unexpected shape), the result is the empty list.
\<close>

theorem parseSSELine_never_throws:
  "(\<exists>evs. AnthropicAdapter_parseSSELine JSON_parse line = Inr evs)
   \<and> (\<exists>evs. GoogleAdapter_parseSSELine JSON_parse JSON_stringify line = Inr evs)
   \<and> (\<forall>e. JSON_parse line = Inl e \<longrightarrow>
          AnthropicAdapter_parseSSELine JSON_parse line = Inr []
          \<and> GoogleAdapter_parseSSELine JSON_parse JSON_stringify line = Inr [])
   \<and> (\<forall>e. AnthropicAdapter_parseSSELine_try JSON_parse line = Inl e \<longrightarrow>
          AnthropicAdapter_parseSSELine JSON_parse line = Inr [])
   \<and> (\<forall>e. GoogleAdapter_parseSSELine_try JSON_parse JSON_stringify line = Inl e \<longrightarrow>
          GoogleAdapter_parseSSELine JSON_parse JSON_stringify line = Inr [])"
proof -
  have a: "\<exists>evs. AnthropicAdapter_parseSSELine JSON_parse line = Inr evs"
    unfolding AnthropicAdapter_parseSSELine_def by (rule tryCatch_total)
  have g: "\<exists>evs. GoogleAdapter_parseSSELine JSON_parse JSON_stringify line = Inr evs"
    unfolding GoogleAdapter_parseSSELine_def by (rule tryCatch_total)
  have ta: "AnthropicAdapter_parseSSELine JSON_parse line = Inr []"
    if "AnthropicAdapter_parseSSELine_try JSON_parse line = Inl e" for e
    unfolding AnthropicAdapter_parseSSELine_def using that by (rule tryCatch_Inl)
  have tg: "GoogleAdapter_parseSSELine JSON_parse JSON_stringify line = Inr []"
    if "GoogleAdapter_parseSSELine_try JSON_parse JSON_stringify line = Inl e" for e
    unfolding GoogleAdapter_parseSSELine_def using that by (rule tryCatch_Inl)
  have pa: "AnthropicAdapter_parseSSELine_try JSON_parse line = Inl e"
    if "JSON_parse line = Inl e" for e
    using that by (simp add: AnthropicAdapter_parseSSELine_try_def)
  have pg: "GoogleAdapter_parseSSELine_try JSON_parse JSON_stringify line = Inl e"
    if "JSON_parse line = Inl e" for e
    using that by (simp add: GoogleAdapter_parseSSELine_try_def)
  from a g ta tg pa pg show ?thesis by blast
qed

theorem parseSSELine_never_throws_witness:
  "exampleParse (str ''{ not json'') = Inl SyntaxError
   \<and> AnthropicAdapter_parseSSELine exampleParse (str ''{ not json'') = Inr []
   \<and> GoogleAdapter_parseSSELine exampleParse (\<lambda>_. []) (str ''{ not json'') = Inr []
   \<and> AnthropicAdapter_parseSSELine_try exampleParse (str ''null'') = Inl TypeError
   \<and> AnthropicAdapter_parseSSELine exampleParse (str ''null'') = Inr []
   \<and> GoogleAdapter_parseSSELine_try (\<lambda>_. Inr exampleBrokenParts) (\<lambda>_. []) (str ''frame'') = Inl TypeError
   \<and> GoogleAdapter_parseSSELine (\<lambda>_. Inr exampleBrokenParts) (\<lambda>_. []) (str ''frame'') = Inr []"
proof -
  have p: "exampleParse (str ''{ not json'') = Inl SyntaxError"
    by (simp add: exampleParse_def)
  have n: "AnthropicAdapter_parseSSELine_try exampleParse (str ''null'') = Inl TypeError"
    by (simp add: AnthropicAdapter_parseSSELine_try_def exampleParse_def anthropicToolCallStart_def)
  note b = google_broken_parts_try[of "\<lambda>_. []" "str ''frame''"]
  from parseSSELine_never_throws[of exampleParse "str ''{ not json''" "\<lambda>_. []", THEN conjunct2, THEN conjunct2,
        THEN conjunct1, rule_format, OF p]
       parseSSELine_never_throws[of exampleParse "str ''null''" "\<lambda>_. []", THEN conjunct2, THEN conjunct2,
        THEN conjunct2, THEN conjunct1, rule_format, OF n]
       parseSSELine_never_throws[of "\<lambda>_. Inr exampleBrokenParts" "str ''frame''" "\<lambda>_. []", THEN conjunct2,
        THEN conjunct2, THEN conjunct2, THEN conjunct2, rule_format, OF b]
       p n b
  show ?thesis by simp
qed

section \<open>Properties of the title requests\<close>

lemma field_JObj [simp]:
  "field (JObj ps) k = (case map_of ps k of None \<Rightarrow> Undefined | Some x \<Rightarrow> x)"
  by (simp add: field_def)

lemma field_Undefined [simp]: "field Undefined k = Undefined"
  by (simp add: field_def)

text \<open>
  C8 fails on the code, for the Google adapter. A title request is built from the title
  input alone (base URL, key, model, prompt), so it does not depend on the reasoning
  setting of the chat. For every title input the body of the Google title request is
  \<open>{ contents, generationConfig: { maxOutputTokens: 50 } }\<close>: it has no \<open>thinkingConfig\<close>
  and no \<open>thinking\<close> field, so nothing in it disables thinking, and a model that thinks
  by default (the \<open>gemini-2.5-flash\<close> of the example) is asked for a title with thinking
  on. The Anthropic adapter, its sibling, does what the claim says: the body of its title
  request carries \<open>thinking: { type: 'disabled' }\<close> (line 310, under the comment of line
  309).
\<close>

theorem GoogleAdapter_buildTitleRequest_thinking_not_disabled:
  "body (GoogleAdapter_buildTitleRequest normalizeBaseUrl JSON_stringify input)
     = JSON_stringify (GoogleAdapter_titleBody input)
   \<and> field (GoogleAdapter_titleBody input) (str ''generationConfig'')
       = JObj [(str ''maxOutputTokens'', JNum 50)]
   \<and> field (field (GoogleAdapter_titleBody input) (str ''generationConfig''))
         (str ''thinkingConfig'') = Undefined
   \<and> field (GoogleAdapter_titleBody input) (str ''thinking'') = Undefined
   \<and> \<not> explicitlyDisablesThinking (GoogleAdapter_titleBody input)
   \<and> GoogleAdapter_titleBody exampleTitleInput
       = JObj [(str ''contents'',
                  JArr [JObj [(str ''role'', JStr (str ''user'')),
                              (str ''parts'', JArr [JObj [(str ''text'', JStr (str ''Hello''))]])]]),
               (str ''generationConfig'', JObj [(str ''maxOutputTokens'', JNum 50)])]
   \<and> body (AnthropicAdapter_buildTitleRequest normalizeAnthropicBaseUrl JSON_stringify input)
       = JSON_stringify (AnthropicAdapter_titleBody input)
   \<and> field (AnthropicAdapter_titleBody input) (str ''thinking'')
       = JObj [(str ''type'', JStr (str ''disabled''))]
   \<and> explicitlyDisablesThinking (AnthropicAdapter_titleBody input)"
  by (simp add: AnthropicAdapter_buildTitleRequest_def GoogleAdapter_buildTitleRequest_def
      AnthropicAdapter_titleBody_def GoogleAdapter_titleBody_def
      explicitlyDisablesThinking_def exampleTitleInput_def Let_def)

section \<open>Properties of the orchestration\<close>

subsection \<open>The loop\<close>

declare toolLoop.simps [simp del]

lemma chunkDeltas_append: "chunkDeltas (xs @ ys) = chunkDeltas xs @ chunkDeltas ys"
  by (induction xs rule: chunkDeltas.induct) simp_all

lemma progressI:
  assumes "conversations st' = conversations st"
    and "activeControllers st' = activeControllers st"
    and "sent st' = sent st @ es"
    and "filter isTerminal es = []"
    and "accumulatedContent st' = accumulatedContent st @ chunkDeltas es"
    and "requests st' = requests st @ rs"
  shows "progress st st'"
  using assms by (simp add: progress_def newEvents_def)

lemma progressD:
  assumes "progress st st'"
  shows "conversations st' = conversations st"
    and "activeControllers st' = activeControllers st"
    and "sent st' = sent st @ newEvents st st'"
    and "filter isTerminal (newEvents st st') = []"
    and "accumulatedContent st' = accumulatedContent st @ chunkDeltas (newEvents st st')"
    and "\<exists>rs. requests st' = requests st @ rs"
proof -
  from assms have t: "take (length (requests st)) (requests st') = requests st"
    by (simp add: progress_def)
  have "requests st' = take (length (requests st)) (requests st') @ drop (length (requests st)) (requests st')"
    by simp
  with t show "\<exists>rs. requests st' = requests st @ rs" by metis
qed (use assms in \<open>simp_all add: progress_def\<close>)

lemma progress_refl: "progress st st"
  by (rule progressI[where es = "[]" and rs = "[]"]) simp_all

lemma progress_trans:
  assumes "progress a b" and "progress b c"
  shows "progress a c"
proof -
  from progressD(6)[OF assms(1)] obtain r1 where r1: "requests b = requests a @ r1" ..
  from progressD(6)[OF assms(2)] obtain r2 where r2: "requests c = requests b @ r2" ..
  show ?thesis
  proof (rule progressI[where es = "newEvents a b @ newEvents b c" and rs = "r1 @ r2"])
    show "sent c = sent a @ newEvents a b @ newEvents b c"
      using progressD(3)[OF assms(1)] progressD(3)[OF assms(2)] by simp
    show "accumulatedContent c = accumulatedContent a @ chunkDeltas (newEvents a b @ newEvents b c)"
      using progressD(5)[OF assms(1)] progressD(5)[OF assms(2)] by (simp add: chunkDeltas_append)
  qed (use assms r1 r2 in \<open>simp_all add: progressD\<close>)
qed

lemma progress_onEvent: "progress st (onEvent cid st ev)"
proof (cases ev)
  case (Chunk d)
  then show ?thesis
    by (intro progressI[where es = "[STREAM_CHUNK cid d]" and rs = "[]"]) (simp_all add: send_def)
next
  case (ReasoningDelta d)
  then show ?thesis
    by (intro progressI[where es = "[STREAM_REASONING cid d]" and rs = "[]"]) (simp_all add: send_def)
next
  case (ToolCallStart i n m)
  then show ?thesis
    by (intro progressI[where es = "[STREAM_TOOL_ACTIVITY cid (ActivityStart n i)]" and rs = "[]"])
       (simp_all add: send_def)
next
  case (ToolCallDelta i a)
  then show ?thesis by (simp add: progress_refl)
next
  case (Done r)
  then show ?thesis by (simp add: progress_refl)
qed

lemma progress_foldl_onEvent: "progress st (foldl (onEvent cid) st evs)"
proof (induction evs arbitrary: st)
  case Nil
  show ?case by (simp add: progress_refl)
next
  case (Cons ev evs)
  have "progress st (onEvent cid st ev)" by (rule progress_onEvent)
  moreover have "progress (onEvent cid st ev) (foldl (onEvent cid) (onEvent cid st ev) evs)"
    by (rule Cons.IH)
  ultimately show ?case by (simp add: progress_trans)
qed

lemma progress_request: "progress st (st\<lparr>requests := requests st @ [rq]\<rparr>)"
  by (rule progressI[where es = "[]" and rs = "[rq]"]) simp_all

lemma progress_tool_activity: "progress st (send (STREAM_TOOL_ACTIVITY cid a) st)"
  by (rule progressI[where es = "[STREAM_TOOL_ACTIVITY cid a]" and rs = "[]"]) (simp_all add: send_def)

lemma progress_executeToolCalls:
  "progress st (fst (executeToolCalls env cid mc tcs (st, rs)))"
proof (induction tcs arbitrary: st rs)
  case Nil
  show ?case by (simp add: progress_refl)
next
  case (Cons tc tcs)
  show ?case
  proof (cases "name_tc tc = str ''recall_memory'' \<or> name_tc tc = str ''add_memory''")
    case True
    then show ?thesis
      using progress_trans[OF progress_tool_activity Cons.IH] by (simp add: Let_def)
  next
    case False
    then show ?thesis using Cons.IH by simp
  qed
qed

lemma executeToolCalls_requests:
  "requests (fst (executeToolCalls env cid mc tcs (st, rs))) = requests st"
  by (induction tcs arbitrary: st rs) (simp_all add: Let_def send_def)

text \<open>One unfolding of the loop.\<close>

lemma toolLoop_done:
  "\<not> round_no < MAX_TOOL_ROUNDS \<Longrightarrow> toolLoop env cid prov mc base cont round_no st = (st, None)"
  by (simp add: toolLoop.simps)

lemma progress_toolLoop:
  "progress st (fst (toolLoop env cid prov mc base cont round_no st))"
proof (induction env cid prov mc base cont round_no st rule: toolLoop.induct)
  case (1 env cid prov mc base cont round_no st)
  show ?case
  proof (cases "round_no < MAX_TOOL_ROUNDS")
    case False
    then show ?thesis by (simp add: toolLoop_done progress_refl)
  next
    case True
    define request where "request = base\<lparr>continuationMessages_rq :=
                              (if length cont > 0 then Some cont else None)\<rparr>"
    define run where "run = streamSSE env (length (requests st)) prov request"
    define st1 where "st1 = st\<lparr>requests := requests st @ [request]\<rparr>"
    define st2 where "st2 = foldl (onEvent cid) st1 (events run)"
    have p2: "progress st st2"
      unfolding st2_def st1_def
      by (rule progress_trans[OF progress_request progress_foldl_onEvent])
    show ?thesis
    proof (cases "outcome run")
      case (Rejected e a)
      then have "toolLoop env cid prov mc base cont round_no st = (st2, Some (e, a))"
        using True by (subst toolLoop.simps) (simp add: Let_def request_def run_def st1_def st2_def)
      with p2 show ?thesis by simp
    next
      case (Resolved res)
      show ?thesis
      proof (cases "toolCalls_sr res")
        case None
        then have "toolLoop env cid prov mc base cont round_no st = (st2, None)"
          using True Resolved
          by (subst toolLoop.simps) (simp add: Let_def request_def run_def st1_def st2_def)
        with p2 show ?thesis by simp
      next
        case (Some tcs)
        show ?thesis
        proof (cases "length tcs = 0 \<or> stopReason_sr res \<noteq> Some (str ''tool_use'')")
          case stop: True
          then have "toolLoop env cid prov mc base cont round_no st = (st2, None)"
            using True Resolved Some
            by (subst toolLoop.simps) (auto simp add: Let_def request_def run_def st1_def st2_def)
          with p2 show ?thesis by simp
        next
          case go: False
          obtain st3 toolResults where ex: "executeToolCalls env cid mc tcs (st2, []) = (st3, toolResults)"
            by (cases "executeToolCalls env cid mc tcs (st2, [])")
          have p3: "progress st2 st3"
            using progress_executeToolCalls[of st2 env cid mc tcs "[]"] ex by simp
          have eq: "toolLoop env cid prov mc base cont round_no st
                = toolLoop env cid prov mc base
                    (cont @ [AssistantTurn (content_sr res) tcs, ToolTurn toolResults]) (Suc round_no) st3"
            using True Resolved Some go ex
            by (subst toolLoop.simps) (simp add: Let_def request_def run_def st1_def st2_def)
          have "progress st3 (fst (toolLoop env cid prov mc base
                    (cont @ [AssistantTurn (content_sr res) tcs, ToolTurn toolResults]) (Suc round_no) st3))"
            using "1.IH"[OF True request_def run_def st1_def st2_def Resolved Some go ex[symmetric]]
            by simp
          with p2 p3 eq show ?thesis by (metis progress_trans)
        qed
      qed
    qed
  qed
qed


lemma onEvent_requests: "requests (onEvent cid st ev) = requests st"
  by (cases ev) (simp_all add: send_def)

lemma foldl_onEvent_requests: "requests (foldl (onEvent cid) st evs) = requests st"
  by (induction evs arbitrary: st) (simp_all add: onEvent_requests)

text \<open>The loop makes at most \<open>MAX_TOOL_ROUNDS - round\<close> further requests.\<close>

lemma toolLoop_requests_le:
  "length (requests (fst (toolLoop env cid prov mc base cont round_no st)))
     \<le> length (requests st) + (MAX_TOOL_ROUNDS - round_no)"
proof (induction env cid prov mc base cont round_no st rule: toolLoop.induct)
  case (1 env cid prov mc base cont round_no st)
  show ?case
  proof (cases "round_no < MAX_TOOL_ROUNDS")
    case False
    then show ?thesis by (simp add: toolLoop_done)
  next
    case True
    define request where "request = base\<lparr>continuationMessages_rq :=
                              (if length cont > 0 then Some cont else None)\<rparr>"
    define run where "run = streamSSE env (length (requests st)) prov request"
    define st1 where "st1 = st\<lparr>requests := requests st @ [request]\<rparr>"
    define st2 where "st2 = foldl (onEvent cid) st1 (events run)"
    have r2: "length (requests st2) = Suc (length (requests st))"
      by (simp add: st2_def st1_def foldl_onEvent_requests)
    show ?thesis
    proof (cases "outcome run")
      case (Rejected e a)
      then have "toolLoop env cid prov mc base cont round_no st = (st2, Some (e, a))"
        using True by (subst toolLoop.simps) (simp add: Let_def request_def run_def st1_def st2_def)
      with r2 True show ?thesis by simp
    next
      case (Resolved res)
      show ?thesis
      proof (cases "toolCalls_sr res")
        case None
        then have "toolLoop env cid prov mc base cont round_no st = (st2, None)"
          using True Resolved
          by (subst toolLoop.simps) (simp add: Let_def request_def run_def st1_def st2_def)
        with r2 True show ?thesis by simp
      next
        case (Some tcs)
        show ?thesis
        proof (cases "length tcs = 0 \<or> stopReason_sr res \<noteq> Some (str ''tool_use'')")
          case stop: True
          then have "toolLoop env cid prov mc base cont round_no st = (st2, None)"
            using True Resolved Some
            by (subst toolLoop.simps) (auto simp add: Let_def request_def run_def st1_def st2_def)
          with r2 True show ?thesis by simp
        next
          case go: False
          obtain st3 toolResults where ex: "executeToolCalls env cid mc tcs (st2, []) = (st3, toolResults)"
            by (cases "executeToolCalls env cid mc tcs (st2, [])")
          have r3: "length (requests st3) = Suc (length (requests st))"
            using executeToolCalls_requests[of env cid mc tcs st2 "[]"] ex r2 by simp
          have eq: "toolLoop env cid prov mc base cont round_no st
                = toolLoop env cid prov mc base
                    (cont @ [AssistantTurn (content_sr res) tcs, ToolTurn toolResults]) (Suc round_no) st3"
            using True Resolved Some go ex
            by (subst toolLoop.simps) (simp add: Let_def request_def run_def st1_def st2_def)
          have "length (requests (fst (toolLoop env cid prov mc base
                    (cont @ [AssistantTurn (content_sr res) tcs, ToolTurn toolResults]) (Suc round_no) st3)))
                 \<le> length (requests st3) + (MAX_TOOL_ROUNDS - Suc round_no)"
            using "1.IH"[OF True request_def run_def st1_def st2_def Resolved Some go ex[symmetric]]
            by simp
          with r3 eq True show ?thesis by simp
        qed
      qed
    qed
  qed
qed

text \<open>When every stream asks for tools, the loop runs until the bound and leaves normally.\<close>

lemma toolLoop_keepsCallingTools:
  "(\<forall>n p rq. keepsCallingTools (streamSSE env n p rq)) \<Longrightarrow>
   snd (toolLoop env cid prov mc base cont round_no st) = None
   \<and> length (requests (fst (toolLoop env cid prov mc base cont round_no st)))
       = length (requests st) + (MAX_TOOL_ROUNDS - round_no)"
proof (induction env cid prov mc base cont round_no st rule: toolLoop.induct)
  case (1 env cid prov mc base cont round_no st)
  show ?case
  proof (cases "round_no < MAX_TOOL_ROUNDS")
    case False
    then show ?thesis by (simp add: toolLoop_done)
  next
    case True
    define request where "request = base\<lparr>continuationMessages_rq :=
                              (if length cont > 0 then Some cont else None)\<rparr>"
    define run where "run = streamSSE env (length (requests st)) prov request"
    define st1 where "st1 = st\<lparr>requests := requests st @ [request]\<rparr>"
    define st2 where "st2 = foldl (onEvent cid) st1 (events run)"
    have r2: "length (requests st2) = Suc (length (requests st))"
      by (simp add: st2_def st1_def foldl_onEvent_requests)
    from "1.prems" have "keepsCallingTools run" by (simp add: run_def)
    then obtain res tcs where res: "outcome run = Resolved res" "toolCalls_sr res = Some tcs"
      and go: "\<not> (length tcs = 0 \<or> stopReason_sr res \<noteq> Some (str ''tool_use''))"
      by (auto simp: keepsCallingTools_def split: StreamOutcome.splits option.splits)
    obtain st3 toolResults where ex: "executeToolCalls env cid mc tcs (st2, []) = (st3, toolResults)"
      by (cases "executeToolCalls env cid mc tcs (st2, [])")
    have r3: "length (requests st3) = Suc (length (requests st))"
      using executeToolCalls_requests[of env cid mc tcs st2 "[]"] ex r2 by simp
    have eq: "toolLoop env cid prov mc base cont round_no st
          = toolLoop env cid prov mc base
              (cont @ [AssistantTurn (content_sr res) tcs, ToolTurn toolResults]) (Suc round_no) st3"
      using True res go ex
      by (subst toolLoop.simps) (simp add: Let_def request_def run_def st1_def st2_def)
    note IH = "1.IH"[OF True request_def run_def st1_def st2_def res go ex[symmetric] "1.prems"]
    with r3 eq True show ?thesis by simp
  qed
qed

subsection \<open>The stages of sendMessage\<close>

lemma startGeneration_facts:
  assumes "startGeneration env input st = Inr (st0, h, u)"
  shows "conversations st0 = (conversations st)
           (conversationId input := conversations st (conversationId input) @ [userMsg env input])"
    and "activeControllers st0 = (activeControllers st)(conversationId input \<mapsto> newController env)"
    and "sent st0 = sent st"
    and "requests st0 = requests st"
    and "accumulatedContent st0 = []"
  using assms
  by (auto simp: startGeneration_def Let_def appendMessage_def split: option.splits sum.splits)

lemma startGeneration_thrown:
  assumes "startGeneration env input st = Inl (st', t)"
  shows "activeControllers st' = activeControllers st"
    and "sent st' = sent st"
    and "requests st' = requests st"
  using assms
  by (auto simp: startGeneration_def Let_def appendMessage_def split: option.splits sum.splits)

lemma progress_runRounds: "progress st (fst (runRounds env input channel apiKey h u st))"
  by (simp add: runRounds_def Let_def progress_refl progress_toolLoop split: option.split)

lemma runRounds_requests_le:
  "length (requests (fst (runRounds env input channel apiKey h u st)))
     \<le> length (requests st) + MAX_TOOL_ROUNDS"
  using toolLoop_requests_le[where round_no = 0 and st = st]
  by (auto simp: runRounds_def Let_def split: option.split)

lemma generation_thrown:
  assumes "generation env input channel apiKey st = Inl (st', t)"
  shows "activeControllers st' = activeControllers st"
    and "sent st' = sent st"
    and "requests st' = requests st"
  using assms startGeneration_thrown[of env input st st' t]
  by (auto simp: generation_def split: sum.splits)

text \<open>The state in which the loop is left, seen from the state before the run.\<close>

lemma generation_facts:
  assumes "generation env input channel apiKey st = Inr (st1, tv)"
  shows "conversations st1 = (conversations st)
           (conversationId input := conversations st (conversationId input) @ [userMsg env input])"
    and "activeControllers st1 = (activeControllers st)(conversationId input \<mapsto> newController env)"
    and "sent st1 = sent st @ newEvents st st1"
    and "filter isTerminal (newEvents st st1) = []"
    and "accumulatedContent st1 = chunkDeltas (newEvents st st1)"
    and "length (requests st1) \<le> length (requests st) + MAX_TOOL_ROUNDS"
proof -
  from assms obtain st0 h u where sg: "startGeneration env input st = Inr (st0, h, u)"
    and rr: "runRounds env input channel apiKey h u st0 = (st1, tv)"
    by (auto simp: generation_def split: sum.splits)
  have st1: "st1 = fst (runRounds env input channel apiKey h u st0)"
    by (simp add: rr)
  have p: "progress st0 st1" unfolding st1 by (rule progress_runRounds)
  have ne: "newEvents st st1 = newEvents st0 st1"
    by (simp add: newEvents_def startGeneration_facts(3)[OF sg])
  show "conversations st1 = (conversations st)
           (conversationId input := conversations st (conversationId input) @ [userMsg env input])"
    using progressD(1)[OF p] startGeneration_facts(1)[OF sg] by simp
  show "activeControllers st1 = (activeControllers st)(conversationId input \<mapsto> newController env)"
    using progressD(2)[OF p] startGeneration_facts(2)[OF sg] by simp
  show "sent st1 = sent st @ newEvents st st1"
    using progressD(3)[OF p] startGeneration_facts(3)[OF sg] ne by simp
  show "filter isTerminal (newEvents st st1) = []"
    using progressD(4)[OF p] ne by simp
  show "accumulatedContent st1 = chunkDeltas (newEvents st st1)"
    using progressD(5)[OF p] startGeneration_facts(5)[OF sg] ne by simp
  show "length (requests st1) \<le> length (requests st) + MAX_TOOL_ROUNDS"
    using runRounds_requests_le[of env input channel apiKey h u st0] startGeneration_facts(4)[OF sg]
    by (simp add: st1)
qed

lemma touchConversation_id [simp]: "touchConversation env cid st = st"
  by (simp add: touchConversation_def split: sum.split)

lemma sendMessage_early:
  "checkChannel env input st = Inl r \<Longrightarrow> sendMessage env input st = r"
  by (simp add: sendMessage_def)

lemma sendMessage_before_try:
  "checkChannel env input st = Inr (channel, apiKey) \<Longrightarrow>
   generation env input channel apiKey st = Inl (st', t) \<Longrightarrow>
   sendMessage env input st = (st', Some t)"
  by (simp add: sendMessage_def)

lemma sendMessage_generation:
  "checkChannel env input st = Inr (channel, apiKey) \<Longrightarrow>
   generation env input channel apiKey st = Inr g \<Longrightarrow>
   sendMessage env input st = finishGeneration env input g"
  by (simp add: sendMessage_def)

lemma checkChannel_Inl:
  assumes "checkChannel env input st = Inl r"
  shows "(\<exists>msg. r = (send (STREAM_ERROR (conversationId input) msg) st, None))
         \<or> (\<exists>t. r = (st, Some t) \<and> listChannels env = Inl t)"
  using assms by (auto simp: checkChannel_def split: option.splits sum.splits)

text \<open>Step 10 and the catch block, case by case.\<close>

lemma saveAssistant_blank:
  "trim (accumulatedContent st) = [] \<Longrightarrow>
   saveAssistant env input st
     = Inr (send (STREAM_COMPLETE (conversationId input) (modelId input) None) st)"
  by (simp add: saveAssistant_def Let_def)

lemma saveAssistant_stored:
  "trim (accumulatedContent st) \<noteq> [] \<Longrightarrow> appendMessageThrows env AppendAssistant = None \<Longrightarrow>
   saveAssistant env input st
     = Inr (send (STREAM_COMPLETE (conversationId input) (modelId input) (Some (randomUUID env 1)))
              (appendMessage (conversationId input) (assistantMsg env input st 1 None) st))"
  by (simp add: saveAssistant_def Let_def)

lemma saveAssistant_thrown:
  "saveAssistant env input st = Inl t \<longleftrightarrow>
     trim (accumulatedContent st) \<noteq> [] \<and> appendMessageThrows env AppendAssistant = Some t"
  by (auto simp: saveAssistant_def Let_def split: option.splits)



lemma onThrown_error:
  "onThrown env input n error False st
     = Inr (send (STREAM_ERROR (conversationId input)
                    (case error of ErrorObject m \<Rightarrow> m | OtherValue _ \<Rightarrow> unknownErrorText)) st)"
  by (simp add: onThrown_def Let_def)

lemma onThrown_thrown:
  "onThrown env input n error aborted st = Inl t \<longleftrightarrow>
     aborted \<and> accumulatedContent st \<noteq> [] \<and> appendMessageThrows env AppendPartial = Some t"
  by (auto simp: onThrown_def Let_def split: option.splits)

text \<open>What step 10 and the catch block leave untouched, and the one event they send.\<close>

lemma saveAssistant_Inr:
  assumes "saveAssistant env input st = Inr st'"
  shows "activeControllers st' = activeControllers st"
    and "requests st' = requests st"
    and "accumulatedContent st' = accumulatedContent st"
    and "accumulatedReasoning st' = accumulatedReasoning st"
    and "\<exists>t. sent st' = sent st @ [t] \<and> isTerminal t"
  using assms
  by (auto simp: saveAssistant_def Let_def send_def appendMessage_def split: if_splits option.splits)

lemma onThrown_Inr:
  assumes "onThrown env input n error aborted st = Inr st'"
  shows "activeControllers st' = activeControllers st"
    and "requests st' = requests st"
    and "accumulatedContent st' = accumulatedContent st"
    and "accumulatedReasoning st' = accumulatedReasoning st"
    and "\<exists>t. sent st' = sent st @ [t] \<and> isTerminal t"
  using assms
  by (auto simp: onThrown_def Let_def send_def appendMessage_def split: if_splits option.splits)

text \<open>
  The result of the part from step 10 on: it resolves having sent one terminal event, or
  it rejects, with the exception of the append in the catch block, having sent none.
\<close>

lemma finishGeneration_cases:
  fixes env input st1 tv
  defines "r \<equiv> finishGeneration env input (st1, tv)"
  shows "activeControllers (fst r) = (activeControllers st1)(conversationId input := None)"
    and "requests (fst r) = requests st1"
    and "accumulatedContent (fst r) = accumulatedContent st1"
    and "accumulatedReasoning (fst r) = accumulatedReasoning st1"
    and "(snd r = None \<and> (\<exists>t. sent (fst r) = sent st1 @ [t] \<and> isTerminal t))
         \<or> (snd r = appendMessageThrows env AppendPartial \<and> snd r \<noteq> None \<and> sent (fst r) = sent st1)"
proof -
  define caught where "caught =
     (case tv of
        None \<Rightarrow> (case saveAssistant env input st1 of
                    Inr st' \<Rightarrow> Inr st'
                  | Inl t \<Rightarrow> onThrown env input 2 t (abortedAfterLoop env) st1)
      | Some (error, aborted) \<Rightarrow> onThrown env input 1 error aborted st1)"
  have r: "r = (case caught of
        Inr st' \<Rightarrow> (st'\<lparr>activeControllers := (activeControllers st')(conversationId input := None)\<rparr>, None)
      | Inl t \<Rightarrow> (st1\<lparr>activeControllers := (activeControllers st1)(conversationId input := None)\<rparr>, Some t))"
    by (simp add: r_def finishGeneration_def caught_def Let_def)
  have ok: "activeControllers st' = activeControllers st1 \<and> requests st' = requests st1
        \<and> accumulatedContent st' = accumulatedContent st1
        \<and> accumulatedReasoning st' = accumulatedReasoning st1
        \<and> (\<exists>t. sent st' = sent st1 @ [t] \<and> isTerminal t)"
    if "caught = Inr st'" for st'
    using that saveAssistant_Inr[of env input st1 st'] onThrown_Inr[of env input _ _ _ st1 st']
    by (auto simp: caught_def split: option.splits sum.splits prod.splits)
  have bad: "appendMessageThrows env AppendPartial = Some t" if "caught = Inl t" for t
    using that by (auto simp: caught_def onThrown_thrown split: option.splits sum.splits prod.splits)
  show "activeControllers (fst r) = (activeControllers st1)(conversationId input := None)"
    using ok by (cases caught) (auto simp: r)
  show "requests (fst r) = requests st1"
    using ok by (cases caught) (auto simp: r)
  show "accumulatedContent (fst r) = accumulatedContent st1"
    using ok by (cases caught) (auto simp: r)
  show "accumulatedReasoning (fst r) = accumulatedReasoning st1"
    using ok by (cases caught) (auto simp: r)
  show "(snd r = None \<and> (\<exists>t. sent (fst r) = sent st1 @ [t] \<and> isTerminal t))
         \<or> (snd r = appendMessageThrows env AppendPartial \<and> snd r \<noteq> None \<and> sent (fst r) = sent st1)"
    using ok bad by (cases caught) (auto simp: r)
qed


lemma chunkDeltas_snoc_terminal: "isTerminal t \<Longrightarrow> chunkDeltas (es @ [t]) = chunkDeltas es"
  by (cases t) (simp_all add: chunkDeltas_append)

lemma newEvents_finish:
  assumes "sent st1 = sent st @ newEvents st st1"
    and "sent final = sent st1 @ [t]"
  shows "newEvents st final = newEvents st st1 @ [t]"
proof -
  have "sent final = sent st @ (newEvents st st1 @ [t])" using assms by simp
  then show ?thesis by (simp add: newEvents_def)
qed

lemma newEvents_same: "sent final = sent st1 \<Longrightarrow> newEvents st final = newEvents st st1"
  by (simp add: newEvents_def)

text \<open>When the document check never throws, neither does the enrichment.\<close>

lemma filterT_total:
  "(\<forall>x. \<exists>b. p x = Inr b) \<Longrightarrow> \<exists>ys. filterT p xs = Inr ys"
proof (induction xs)
  case Nil
  show ?case by simp
next
  case (Cons x xs)
  from Cons obtain b ys where "p x = Inr b" "filterT p xs = Inr ys" by blast
  then show ?case by simp
qed

lemma someT_total:
  "(\<forall>x. \<exists>b. p x = Inr b) \<Longrightarrow> \<exists>b. someT p xs = Inr b"
proof (induction xs)
  case Nil
  show ?case by (rule exI[of _ False]) simp
next
  case (Cons x xs)
  from Cons obtain b c where "p x = Inr b" "someT p xs = Inr c" by blast
  then have "someT p (x # xs) = Inr (if b then True else c)" by simp
  then show ?case ..
qed

lemma enrichMessageWithDocuments_total:
  assumes "\<forall>m. \<exists>b. isDocumentAttachment env m = Inr b"
  shows "\<exists>u. enrichMessageWithDocuments env txt atts = Inr u"
proof (cases atts)
  case None
  then show ?thesis by (simp add: enrichMessageWithDocuments_def)
next
  case (Some as)
  from assms have "\<forall>att. \<exists>b. isDocumentAttachment env (mediaType att) = Inr b" by simp
  from filterT_total[OF this, of as] obtain ys
    where "filterT (\<lambda>att. isDocumentAttachment env (mediaType att)) as = Inr ys" ..
  with Some show ?thesis by (simp add: enrichMessageWithDocuments_def)
qed

lemma enrichHistoryLoop_total:
  assumes "\<forall>m. \<exists>b. isDocumentAttachment env m = Inr b"
  shows "\<exists>h. enrichHistoryLoop env ms enriched = Inr h"
proof (induction ms arbitrary: enriched)
  case Nil
  show ?case by simp
next
  case (Cons msg rest)
  show ?case
  proof (cases "attachments msg")
    case None
    then show ?thesis using Cons.IH by simp
  next
    case (Some as)
    from assms have "\<forall>att. \<exists>b. isDocumentAttachment env (mediaType att) = Inr b" by simp
    from someT_total[OF this, of as] obtain b
      where b: "someT (\<lambda>att. isDocumentAttachment env (mediaType att)) as = Inr b" ..
    from enrichMessageWithDocuments_total[OF assms, of "content msg" "attachments msg"] obtain u
      where u: "enrichMessageWithDocuments env (content msg) (attachments msg) = Inr u" ..
    show ?thesis using Some b u Cons.IH by simp
  qed
qed

lemma startGeneration_total:
  assumes "getConversationMessagesThrows env (conversationId input) = None"
    and "appendMessageThrows env AppendUser = None"
    and "\<forall>m. \<exists>b. isDocumentAttachment env m = Inr b"
  shows "\<exists>x. startGeneration env input st = Inr x"
proof -
  from enrichHistoryLoop_total[OF assms(3)] obtain h where
    "enrichHistoryWithDocuments env
       (filterHistory (conversations st (conversationId input)) (contextDividers input)
          (contextLength input)) = Inr h"
    unfolding enrichHistoryWithDocuments_def by blast
  moreover from enrichMessageWithDocuments_total[OF assms(3)] obtain u where
    "enrichMessageWithDocuments env (userMessage input) (attachments_in input) = Inr u" by blast
  ultimately show ?thesis
    using assms(1,2) by (simp add: startGeneration_def Let_def)
qed



subsection \<open>Example runs\<close>

lemma example_checkChannel:
  "checkChannel (exampleEnv script) exampleInput st
     = Inr (\<lparr> id_ch = str ''ch1'', provider = str ''anthropic'',
               baseUrl_ch = str ''https://api.example.test'' \<rparr>, str ''sk'')"
  by (simp add: checkChannel_def exampleEnv_def exampleInput_def)

lemmas example_run_defs =
  generation_def startGeneration_def runRounds_def exampleEnv_def Let_def toolLoop.simps
  MAX_TOOL_ROUNDS_def send_def assistantMsg_def appendMessage_def
  enrichHistoryWithDocuments_def enrichMessageWithDocuments_def

lemma example_filterHistory [simp]: "filterHistory [] None (Some Infinite) = []"
  by (simp add: filterHistory_def dropEmptyAssistant_def applyDividers_def)

lemma str_append: "str (a @ b) = str a @ str b"
  by (simp add: str_def)


lemma example_inside:
  "\<not> isl (generation (exampleEnv script) exampleInput ch k st)"
proof -
  have "\<forall>m. \<exists>b. isDocumentAttachment (exampleEnv script) m = Inr b"
    by (intro allI exI[of _ False]) (simp add: exampleEnv_def)
  then have "\<exists>x. startGeneration (exampleEnv script) exampleInput st = Inr x"
    by (intro startGeneration_total) (simp_all add: exampleEnv_def)
  then show ?thesis by (auto simp: generation_def)
qed



lemma example_conversation [simp]:
  "conversations emptyState c = []" "requests emptyState = []" "sent emptyState = []"
  "conversationId exampleInput = str ''c1''" "modelId exampleInput = str ''m''"
  by (simp_all add: emptyState_def exampleInput_def)

lemma example_append [simp]: "appendMessageThrows (exampleEnv script) site = None"
  by (simp add: exampleEnv_def)

lemma example_orphan:
  "checkChannel (exampleEnv script) orphanInput st
     = Inl (send (STREAM_ERROR (str ''c1'') channelNotFoundText) st, None)"
  by (simp add: checkChannel_def exampleEnv_def exampleInput_def orphanInput_def)

lemma example_generation:
  "generation (exampleEnv script) exampleInput ch k st
     = Inr (projr (generation (exampleEnv script) exampleInput ch k st))"
  using example_inside[of script ch k st] by simp





lemma example_toolsForever_keeps:
  "\<forall>n p rq. keepsCallingTools (streamSSE (exampleEnv toolsForever) n p rq)"
  by (simp add: exampleEnv_def toolsForever_def keepsCallingTools_def)

lemma example_setup: "setupThrows (exampleEnv script) = None"
  by (simp add: exampleEnv_def)

text \<open>Which calls get a result: those with the name of a memory tool, in order.\<close>

lemma executeMemoryToolCall_id: "toolCallId (executeMemoryToolCall env tc mc) = id_tc tc"
  by (simp add: executeMemoryToolCall_def Let_def split: sum.split)

lemma executeToolCalls_results:
  "map toolCallId (snd (executeToolCalls env cid mc tcs (st, rs)))
     = map toolCallId rs
       @ map id_tc (filter (\<lambda>tc. name_tc tc = str ''recall_memory'' \<or> name_tc tc = str ''add_memory'') tcs)"
  by (induction tcs arbitrary: st rs) (simp_all add: Let_def executeMemoryToolCall_id)

lemma example_toolsForever_content:
  "accumulatedContent (fst (sendMessage (exampleEnv toolsForever) exampleInput emptyState))
     = str ''aaaaa''"
  unfolding sendMessage_def example_checkChannel
  by (simp add: finishGeneration_def saveAssistant_def example_run_defs toolsForever_def
        emptyState_def exampleInput_def recallCall_def executeMemoryToolCall_def str_append[symmetric])

lemma trim_aaaaa: "trim (str ''aaaaa'') \<noteq> []"
  by (simp add: trim_def str_def isWhiteSpace_def)

lemma example_uuid: "randomUUID (exampleEnv script) (Suc 0) = str ''uuid-assistant''"
  by (simp add: exampleEnv_def)

lemma example_userAppendFails_checkChannel:
  "checkChannel (userAppendFails script) exampleInput st
     = Inr (\<lparr> id_ch = str ''ch1'', provider = str ''anthropic'',
               baseUrl_ch = str ''https://api.example.test'' \<rparr>, str ''sk'')"
  by (simp add: checkChannel_def userAppendFails_def exampleEnv_def exampleInput_def)

lemma example_userAppendFails_generation:
  "generation (userAppendFails script) exampleInput ch k st
     = Inl (st, ErrorObject (str ''EACCES''))"
  by (simp add: generation_def startGeneration_def userAppendFails_def exampleEnv_def)

lemma example_userAppendFails:
  "sendMessage (userAppendFails script) exampleInput st = (st, Some (ErrorObject (str ''EACCES'')))"
  by (simp add: sendMessage_def example_userAppendFails_checkChannel
        example_userAppendFails_generation)




subsection \<open>Terminal events\<close>




subsection \<open>The registry\<close>

text \<open>
  C9, as stated, fails: a run can complete and leave a mapping for its conversation id in
  the registry. The registry holds handles for \<open>c1\<close> and \<open>c2\<close>; an invocation for \<open>c1\<close>
  names a channel that does not exist, sends \<open>STREAM_ERROR\<close> and returns at line 305,
  before the \<open>set\<close> of line 340 and outside the \<open>try\<close> whose \<open>finally\<close> deletes: the
  mapping of \<open>c1\<close> is still there. So it is when the run throws before the \<open>try\<close>, the
  store refusing the user message.
\<close>

theorem sendMessage_registry_counterexample:
  "conversationId orphanInput = str ''c1''
   \<and> activeControllers busyState (str ''c1'') = Some 7
   \<and> sendMessage (exampleEnv textCompleted) orphanInput busyState
       = (send (STREAM_ERROR (str ''c1'') channelNotFoundText) busyState, None)
   \<and> activeControllers (fst (sendMessage (exampleEnv textCompleted) orphanInput busyState))
       (str ''c1'') = Some 7
   \<and> activeControllers (fst (sendMessage (userAppendFails textCompleted) exampleInput busyState))
       (str ''c1'') = Some 7"
  unfolding sendMessage_early[OF example_orphan] example_userAppendFails
  by (simp add: send_def busyState_def orphanInput_def exampleInput_def)

text \<open>
  C9, amended. A run that enters the \<open>try\<close> (it passed the checks, and steps 3-6 did not
  throw) leaves the registry it found with the mapping of its conversation id removed,
  whatever its outcome: normal end, failure, cancellation, and also when the \<open>catch\<close>
  block itself throws. A run that ends at the checks, or that throws before the \<open>try\<close>,
  leaves the registry as it found it. So after any run that found no mapping for its
  conversation id, there is none.
\<close>

theorem sendMessage_registry:
  "(\<forall>channel apiKey g.
      checkChannel env input st = Inr (channel, apiKey)
      \<and> generation env input channel apiKey st = Inr g \<longrightarrow>
      activeControllers (fst (sendMessage env input st))
        = (activeControllers st)(conversationId input := None)
      \<and> activeControllers (fst (sendMessage env input st)) (conversationId input) = None)
   \<and> (\<forall>r. checkChannel env input st = Inl r \<longrightarrow>
        activeControllers (fst (sendMessage env input st)) = activeControllers st)
   \<and> (\<forall>channel apiKey x.
        checkChannel env input st = Inr (channel, apiKey)
        \<and> generation env input channel apiKey st = Inl x \<longrightarrow>
        activeControllers (fst (sendMessage env input st)) = activeControllers st)
   \<and> (activeControllers st (conversationId input) = None \<longrightarrow>
        activeControllers (fst (sendMessage env input st)) (conversationId input) = None)"
proof -
  have inside: "activeControllers (fst (sendMessage env input st))
        = (activeControllers st)(conversationId input := None)"
    if "checkChannel env input st = Inr (channel, apiKey)"
      "generation env input channel apiKey st = Inr g" for channel apiKey g
  proof -
    obtain st1 tv where gv: "g = (st1, tv)" by (cases g)
    show ?thesis
      using that gv finishGeneration_cases(1)[of env input st1 tv]
        generation_facts(2)[of env input channel apiKey st st1 tv]
      by (simp add: sendMessage_generation)
  qed
  have early: "activeControllers (fst (sendMessage env input st)) = activeControllers st"
    if "checkChannel env input st = Inl r" for r
    using checkChannel_Inl[OF that] by (auto simp: sendMessage_early[OF that] send_def)
  have before: "activeControllers (fst (sendMessage env input st)) = activeControllers st"
    if "checkChannel env input st = Inr (channel, apiKey)"
      "generation env input channel apiKey st = Inl x" for channel apiKey x
  proof -
    obtain st' t where x: "x = (st', t)" by (cases x)
    show ?thesis
      using that x generation_thrown(1)[of env input channel apiKey st st' t]
      by (simp add: sendMessage_before_try)
  qed
  have free: "activeControllers (fst (sendMessage env input st)) (conversationId input) = None"
    if f: "activeControllers st (conversationId input) = None"
  proof (cases "checkChannel env input st")
    case (Inl r)
    with early f show ?thesis by simp
  next
    case (Inr p)
    obtain channel apiKey where p: "p = (channel, apiKey)" by (cases p)
    show ?thesis
    proof (cases "generation env input channel apiKey st")
      case (Inl x)
      with before Inr p f show ?thesis by simp
    next
      case g: (Inr g)
      with inside Inr p show ?thesis by simp
    qed
  qed
  show ?thesis
  proof (intro conjI allI impI)
    fix channel apiKey g
    assume h: "checkChannel env input st = Inr (channel, apiKey)
      \<and> generation env input channel apiKey st = Inr g"
    from h inside[of channel apiKey g]
    show "activeControllers (fst (sendMessage env input st))
        = (activeControllers st)(conversationId input := None)" by simp
    then show "activeControllers (fst (sendMessage env input st)) (conversationId input) = None"
      by simp
  next
    fix r assume "checkChannel env input st = Inl r"
    then show "activeControllers (fst (sendMessage env input st)) = activeControllers st"
      by (rule early)
  next
    fix channel apiKey x
    assume "checkChannel env input st = Inr (channel, apiKey)
        \<and> generation env input channel apiKey st = Inl x"
    then show "activeControllers (fst (sendMessage env input st)) = activeControllers st"
      using before[of channel apiKey x] by simp
  next
    assume "activeControllers st (conversationId input) = None"
    then show "activeControllers (fst (sendMessage env input st)) (conversationId input) = None"
      by (rule free)
  qed
qed

theorem sendMessage_registry_witness:
  "activeControllers (fst (sendMessage (exampleEnv textCompleted) exampleInput busyState))
       (str ''c1'') = None
   \<and> activeControllers (fst (sendMessage (exampleEnv textCompleted) exampleInput busyState))
       (str ''c2'') = Some 8
   \<and> activeControllers (fst (sendMessage (exampleEnv textCompleted) orphanInput busyState))
       = activeControllers busyState
   \<and> activeControllers (fst (sendMessage (userAppendFails textCompleted) exampleInput busyState))
       = activeControllers busyState
   \<and> activeControllers (fst (sendMessage (exampleEnv textCompleted) orphanInput emptyState))
       (str ''c1'') = None"
  using sendMessage_registry[of "exampleEnv textCompleted" exampleInput busyState,
          THEN conjunct1, rule_format, OF conjI[OF example_checkChannel example_generation]]
        sendMessage_registry[of "exampleEnv textCompleted" orphanInput busyState,
          THEN conjunct2, THEN conjunct1, rule_format, OF example_orphan]
        sendMessage_registry[of "userAppendFails textCompleted" exampleInput busyState,
          THEN conjunct2, THEN conjunct2, THEN conjunct1, rule_format,
          OF conjI[OF example_userAppendFails_checkChannel example_userAppendFails_generation]]
        sendMessage_registry[of "exampleEnv textCompleted" orphanInput emptyState,
          THEN conjunct2, THEN conjunct2, THEN conjunct2]
  by (simp add: busyState_def emptyState_def orphanInput_def exampleInput_def)

subsection \<open>Cancellation\<close>



subsection \<open>Persistence on normal completion and on cancellation\<close>



subsection \<open>The bound on rounds\<close>

text \<open>
  C4. \<open>MAX_TOOL_ROUNDS\<close> is 5, and no run makes more than \<open>MAX_TOOL_ROUNDS\<close> stream
  requests, whatever the streams return. When every stream keeps asking for tools, a run
  that has entered the \<open>try\<close> makes exactly that many requests and leaves the loop
  without an exception, and the accumulated content is all the text sent. It is then
  finalized as a normal completion with what has accumulated: when the content is blank
  or the append of step 10 returns, the run resolves, the content is stored as the
  assistant message when it is not blank, and the last event is \<open>STREAM_COMPLETE\<close> (with
  the message id when the message was stored).
\<close>

theorem toolLoop_bounded:
  "MAX_TOOL_ROUNDS = 5
   \<and> length (requests (fst (sendMessage env input st))) \<le> length (requests st) + MAX_TOOL_ROUNDS
   \<and> (\<forall>channel apiKey g.
        checkChannel env input st = Inr (channel, apiKey)
        \<and> generation env input channel apiKey st = Inr g
        \<and> setupThrows env = None
        \<and> (\<forall>n p rq. keepsCallingTools (streamSSE env n p rq))
        \<longrightarrow> length (requests (fst (sendMessage env input st)))
              = length (requests st) + MAX_TOOL_ROUNDS
            \<and> snd g = None
            \<and> accumulatedContent (fst (sendMessage env input st))
                = chunkDeltas (newEvents st (fst (sendMessage env input st)))
            \<and> (trim (accumulatedContent (fst (sendMessage env input st))) = []
                 \<or> appendMessageThrows env AppendAssistant = None
               \<longrightarrow> snd (sendMessage env input st) = None
                   \<and> last (sent (fst (sendMessage env input st)))
                       = STREAM_COMPLETE (conversationId input) (modelId input)
                           (if trim (accumulatedContent (fst (sendMessage env input st))) \<noteq> []
                            then Some (randomUUID env 1) else None)
                   \<and> conversations (fst (sendMessage env input st))
                       = (conversations st)(conversationId input :=
                            conversations st (conversationId input)
                              @ userMsg env input
                                # (if trim (accumulatedContent (fst (sendMessage env input st))) \<noteq> []
                                   then [assistantMsg env input (fst (sendMessage env input st)) 1 None]
                                   else []))))"
proof (intro conjI allI impI)
  show "MAX_TOOL_ROUNDS = 5" by (simp add: MAX_TOOL_ROUNDS_def)
  show "length (requests (fst (sendMessage env input st))) \<le> length (requests st) + MAX_TOOL_ROUNDS"
  proof (cases "checkChannel env input st")
    case (Inl r)
    from checkChannel_Inl[OF Inl] show ?thesis
      by (auto simp: sendMessage_early[OF Inl] send_def)
  next
    case (Inr p)
    obtain channel apiKey where p: "p = (channel, apiKey)" by (cases p)
    show ?thesis
    proof (cases "generation env input channel apiKey st")
      case (Inl x)
      obtain st' t where x: "x = (st', t)" by (cases x)
      from generation_thrown(3)[OF Inl[unfolded x]] show ?thesis
        using Inr p Inl x by (simp add: sendMessage_before_try)
    next
      case g: (Inr g)
      obtain st1 tv where gv: "g = (st1, tv)" by (cases g)
      from generation_facts(6)[OF g[unfolded gv]] finishGeneration_cases(2)[of env input st1 tv]
      show ?thesis using Inr p g gv by (simp add: sendMessage_generation)
    qed
  qed
next
  fix channel apiKey g
  assume h: "checkChannel env input st = Inr (channel, apiKey)
        \<and> generation env input channel apiKey st = Inr g
        \<and> setupThrows env = None
        \<and> (\<forall>n p rq. keepsCallingTools (streamSSE env n p rq))"
  define final where "final = fst (sendMessage env input st)"
  obtain st1 tv where gv: "g = (st1, tv)" by (cases g)
  from h gv have gen: "generation env input channel apiKey st = Inr (st1, tv)" by simp
  from gen obtain st0 hist u where sg: "startGeneration env input st = Inr (st0, hist, u)"
    and rr: "runRounds env input channel apiKey hist u st0 = (st1, tv)"
    by (auto simp: generation_def split: sum.splits)
  from h rr have loop: "\<exists>mc base.
      toolLoop env (conversationId input) (provider channel) mc base [] 0 st0 = (st1, tv)"
    by (auto simp: runRounds_def Let_def)
  then obtain mc base
    where g: "toolLoop env (conversationId input) (provider channel) mc base [] 0 st0 = (st1, tv)"
    by blast
  from h toolLoop_keepsCallingTools[of env "conversationId input" "provider channel" mc base "[]" 0 st0]
  have k: "tv = None" "length (requests st1) = length (requests st) + MAX_TOOL_ROUNDS"
    using startGeneration_facts(4)[OF sg] by (simp_all add: g)
  from h gv have sm: "sendMessage env input st = finishGeneration env input (st1, tv)"
    by (simp add: sendMessage_generation)
  note facts = generation_facts[OF gen]
  show "snd g = None" using k(1) gv by simp
  show "length (requests (fst (sendMessage env input st))) = length (requests st) + MAX_TOOL_ROUNDS"
    using k(2) finishGeneration_cases(2)[of env input st1 tv] by (simp add: sm)
  have acc: "accumulatedContent final = accumulatedContent st1"
    unfolding final_def sm by (rule finishGeneration_cases(3))
  have rsn: "accumulatedReasoning final = accumulatedReasoning st1"
    unfolding final_def sm by (rule finishGeneration_cases(4))
  have "accumulatedContent final = chunkDeltas (newEvents st final)"
    using finishGeneration_cases(5)[of env input st1 tv]
  proof
    assume "snd (finishGeneration env input (st1, tv)) = None
      \<and> (\<exists>t. sent (fst (finishGeneration env input (st1, tv))) = sent st1 @ [t] \<and> isTerminal t)"
    then obtain t where t: "sent final = sent st1 @ [t]" "isTerminal t"
      unfolding final_def sm by blast
    from newEvents_finish[OF facts(3) t(1)] t(2) facts(5) acc show ?thesis
      by (simp add: chunkDeltas_snoc_terminal)
  next
    assume "snd (finishGeneration env input (st1, tv)) = appendMessageThrows env AppendPartial
      \<and> snd (finishGeneration env input (st1, tv)) \<noteq> None
      \<and> sent (fst (finishGeneration env input (st1, tv))) = sent st1"
    then have "sent final = sent st1" unfolding final_def sm by blast
    from newEvents_same[OF this] facts(5) acc show ?thesis by simp
  qed
  then show "accumulatedContent (fst (sendMessage env input st))
                = chunkDeltas (newEvents st (fst (sendMessage env input st)))"
    by (simp add: final_def)
  assume ok: "trim (accumulatedContent (fst (sendMessage env input st))) = []
                 \<or> appendMessageThrows env AppendAssistant = None"
  then have ok1: "trim (accumulatedContent st1) = []
      \<or> appendMessageThrows env AppendAssistant = None"
    unfolding final_def[symmetric] acc .
  have same: "assistantMsg env input final 1 None = assistantMsg env input st1 1 None"
    by (simp add: assistantMsg_def acc rsn)
  have fin: "sendMessage env input st
      = (if trim (accumulatedContent st1) \<noteq> []
         then ((send (STREAM_COMPLETE (conversationId input) (modelId input) (Some (randomUUID env 1)))
                 (appendMessage (conversationId input) (assistantMsg env input st1 1 None) st1))
                \<lparr>activeControllers := (activeControllers st1)(conversationId input := None)\<rparr>, None)
         else ((send (STREAM_COMPLETE (conversationId input) (modelId input) None) st1)
                \<lparr>activeControllers := (activeControllers st1)(conversationId input := None)\<rparr>, None))"
    using ok1 k(1)
    by (auto simp: sm finishGeneration_def saveAssistant_stored saveAssistant_blank send_def
          appendMessage_def)
  show "snd (sendMessage env input st) = None" by (simp add: fin)
  show "last (sent (fst (sendMessage env input st)))
                = STREAM_COMPLETE (conversationId input) (modelId input)
                    (if trim (accumulatedContent (fst (sendMessage env input st))) \<noteq> []
                     then Some (randomUUID env 1) else None)"
    unfolding final_def[symmetric] acc by (simp add: final_def fin send_def)
  show "conversations (fst (sendMessage env input st))
                = (conversations st)(conversationId input :=
                     conversations st (conversationId input)
                       @ userMsg env input
                         # (if trim (accumulatedContent (fst (sendMessage env input st))) \<noteq> []
                            then [assistantMsg env input (fst (sendMessage env input st)) 1 None]
                            else []))"
    unfolding final_def[symmetric] same acc using facts(1)
    by (simp add: final_def fin send_def appendMessage_def)
qed

theorem toolLoop_bounded_witness:
  "length (requests (fst (sendMessage (exampleEnv toolsForever) exampleInput emptyState))) = 5
   \<and> accumulatedContent (fst (sendMessage (exampleEnv toolsForever) exampleInput emptyState))
       = str ''aaaaa''
   \<and> snd (sendMessage (exampleEnv toolsForever) exampleInput emptyState) = None
   \<and> last (sent (fst (sendMessage (exampleEnv toolsForever) exampleInput emptyState)))
       = STREAM_COMPLETE (str ''c1'') (str ''m'') (Some (str ''uuid-assistant''))"
  using toolLoop_bounded[of "exampleEnv toolsForever" exampleInput emptyState,
          THEN conjunct2, THEN conjunct2, rule_format,
          OF conjI[OF example_checkChannel conjI[OF example_generation
               conjI[OF example_setup example_toolsForever_keeps]]]]
  by (simp add: MAX_TOOL_ROUNDS_def example_toolsForever_content trim_aaaaa example_uuid)

subsection \<open>Tool calls with an unknown name\<close>

text \<open>
  C3 fails on the code. The first stream returns, with the stop reason \<open>tool_use\<close>, one
  call of a tool named \<open>web_search\<close>. The loop over the calls runs the executor only for
  the two memory tools, so the call gets no result: the list of results is empty, and the
  second request carries the assistant turn with the call and a tool turn without any
  result. The executor itself would have answered this call with an error result
  (\<open>Unknown tool: web_search\<close>).
\<close>

theorem unknown_tool_call_dropped:
  "name_tc webSearchCall = str ''web_search''
   \<and> snd (executeToolCalls (exampleEnv unknownToolScript) (str ''c1'')
            (getMemoryConfig (exampleEnv unknownToolScript)) [webSearchCall] (emptyState, [])) = []
   \<and> map continuationMessages_rq
         (requests (fst (sendMessage (exampleEnv unknownToolScript) exampleInput emptyState)))
       = [None, Some [AssistantTurn [] [webSearchCall], ToolTurn []]]
   \<and> executeMemoryToolCall (exampleEnv unknownToolScript) webSearchCall
         (getMemoryConfig (exampleEnv unknownToolScript))
       = \<lparr> toolCallId = str ''call_1'', content_tr = str ''Unknown tool: web_search'',
           isError = Some True \<rparr>"
proof -
  have a: "snd (executeToolCalls (exampleEnv unknownToolScript) (str ''c1'')
            (getMemoryConfig (exampleEnv unknownToolScript)) [webSearchCall] (emptyState, [])) = []"
    by (simp add: webSearchCall_def)
  have b: "map continuationMessages_rq
         (requests (fst (sendMessage (exampleEnv unknownToolScript) exampleInput emptyState)))
       = [None, Some [AssistantTurn [] [webSearchCall], ToolTurn []]]"
    unfolding sendMessage_def example_checkChannel
    by (simp add: finishGeneration_def saveAssistant_def example_run_defs unknownToolScript_def
          textCompleted_def emptyState_def exampleInput_def webSearchCall_def)
  have c: "executeMemoryToolCall (exampleEnv unknownToolScript) webSearchCall
         (getMemoryConfig (exampleEnv unknownToolScript))
       = \<lparr> toolCallId = str ''call_1'', content_tr = str ''Unknown tool: web_search'',
           isError = Some True \<rparr>"
    by (simp add: executeMemoryToolCall_def webSearchCall_def Let_def str_append[symmetric])
  show ?thesis using a b c by (simp add: webSearchCall_def)
qed

end
